theory Spec2Isabelle
  imports Main "HOL-Library.AList"
begin

section \<open>The client port of lms-communication-client\<close>

text \<open>
  A shallow embedding of \<^verbatim>\<open>ClientPort.ts\<close>. The port is a record of its private
  fields; every method is a function from the port to the updated port. What the port
  does to the outside world (frames given to \<^verbatim>\<open>transport.send\<close>, the two transport
  edge callbacks, logger lines, calls of the sinks of channels and signals) is appended
  to the field \<open>events\<close>, in call order. Promises, channels and signals are objects the
  port's records point to; they live in three stores and are named by their index.

  Payloads are values of an arbitrary type \<open>'v\<close> (the source's \<^verbatim>\<open>any\<close>), errors given
  to user code are values of an arbitrary type \<open>'e\<close>. The libraries zod and immer are
  not part of the repository: a zod schema is the function \<^verbatim>\<open>safeParse\<close> computes
  (\<open>Some data\<close> on success, \<open>None\<close> on failure), and \<^verbatim>\<open>applyPatches\<close> is a parameter.
  Identifiers are JavaScript numbers counted up from 0; they are modelled as natural
  numbers (the counters are exact below \<open>2 ^ 53\<close>).
\<close>

subsection \<open>Values, patches, schemas\<close>

datatype WriteTag = TagNumber int | TagString string

datatype PathSegment = Key string | Index nat

datatype PatchOp = Replace | Add | Remove

record 'v Patch =
  op :: PatchOp
  path :: "PathSegment list"
  patchValue :: "'v option"

text \<open>What a throw statement of the source raises.\<close>

datatype thrown =
  Error string  \<comment> \<open>\<^verbatim>\<open>new Error(message)\<close>\<close>
  | ZodError    \<comment> \<open>raised by \<^verbatim>\<open>ZodType.parse\<close>\<close>
  | ImmerError  \<comment> \<open>raised by \<^verbatim>\<open>applyPatches\<close>\<close>

type_synonym 'v ZodType = "'v \<Rightarrow> 'v option"

definition safeParse :: "'v ZodType \<Rightarrow> 'v \<Rightarrow> 'v option" where
  "safeParse schema x = schema x"

definition parse :: "'v ZodType \<Rightarrow> 'v \<Rightarrow> thrown + 'v" where
  "parse schema x = (case schema x of None \<Rightarrow> Inl ZodError | Some data \<Rightarrow> Inr data)"

subsection \<open>The backend interface\<close>

text \<open>
  Endpoint descriptors, without the handler, which is always \<^verbatim>\<open>null\<close> on the client.
  Several interfaces of the source have fields of the same name (\<^verbatim>\<open>name\<close>,
  \<^verbatim>\<open>endpoint\<close>, \<^verbatim>\<open>stack\<close>, \<^verbatim>\<open>creationParameter\<close>); here such a field carries the
  name of its interface in front.
\<close>

record 'v RpcEndpoint =
  rpcName :: string
  parameter :: "'v ZodType"
  returns :: "'v ZodType"

record 'v ChannelEndpoint =
  channelName :: string
  channelCreationParameter :: "'v ZodType"
  toServerPacket :: "'v ZodType"
  toClientPacket :: "'v ZodType"

record 'v SignalEndpoint =
  signalName :: string
  creationParameter :: "'v ZodType"
  signalData :: "'v ZodType"

record 'v BackendInterface =
  rpcEndpoints :: "string \<rightharpoonup> 'v RpcEndpoint"
  channelEndpoints :: "string \<rightharpoonup> 'v ChannelEndpoint"
  signalEndpoints :: "string \<rightharpoonup> 'v SignalEndpoint"
  writableSignalEndpoints :: "string \<rightharpoonup> 'v SignalEndpoint"

definition getRpcEndpoint :: "'v BackendInterface \<Rightarrow> string \<Rightarrow> 'v RpcEndpoint option" where
  "getRpcEndpoint bi endpointName = rpcEndpoints bi endpointName"

definition getChannelEndpoint ::
  "'v BackendInterface \<Rightarrow> string \<Rightarrow> 'v ChannelEndpoint option" where
  "getChannelEndpoint bi endpointName = channelEndpoints bi endpointName"

definition getSignalEndpoint ::
  "'v BackendInterface \<Rightarrow> string \<Rightarrow> 'v SignalEndpoint option" where
  "getSignalEndpoint bi endpointName = signalEndpoints bi endpointName"

text \<open>
  Modelled from the spec: \<^verbatim>\<open>getWritableSignalEndpoint\<close> is called by the port, but the
  backend interface under src/ has no writable signal endpoints yet. The spec (4.1) says
  that lookup operations return an optional descriptor by name and that signals have
  \<^verbatim>\<open>creationParameter\<close> and \<^verbatim>\<open>signalData\<close>.
\<close>

definition getWritableSignalEndpoint ::
  "'v BackendInterface \<Rightarrow> string \<Rightarrow> 'v SignalEndpoint option" where
  "getWritableSignalEndpoint bi endpointName = writableSignalEndpoints bi endpointName"

subsection \<open>Frames\<close>

text \<open>
  The text of a produced communication warning is a template string; it is kept as the
  template's name with the values the source interpolates into it.
\<close>

datatype FrameType =
  channelSend | channelAck | channelClose | channelError | rpcResult | rpcError
  | signalUpdate | signalError | writableSignalUpdate | writableSignalError

datatype 'v WarningText =
  ReceivedForUnknown FrameType nat
  | ReceivedInvalidMessageForChannel string 'v
  | ReceivedInvalidResultForRpc string 'v
  | ReceivedInvalidSignalPatchData nat "'v Patch list" 'v 'v
  | ReceivedInvalidWritableSignalPatchData nat "'v Patch list" 'v 'v

datatype 'v ServerToClientMessage =
  In_channelSend nat 'v
  | In_channelAck nat nat
  | In_channelClose nat
  | In_channelError nat 'v
  | In_rpcResult nat 'v
  | In_rpcError nat 'v
  | In_signalUpdate nat "'v Patch list" "WriteTag list"
  | In_signalError nat 'v
  | In_writableSignalUpdate nat "'v Patch list" "WriteTag list"
  | In_writableSignalError nat 'v
  | In_communicationWarning string
  | In_keepAliveAck

datatype 'v ClientToServerMessage =
  Out_rpcCall string nat 'v
  | Out_channelCreate string nat 'v
  | Out_channelSend nat 'v
  | Out_signalSubscribe string nat 'v
  | Out_signalUnsubscribe nat
  | Out_writableSignalSubscribe string nat 'v
  | Out_writableSignalUnsubscribe nat
  | Out_writableSignalUpdate nat "'v Patch list" "WriteTag list"
  | Out_communicationWarning "'v WarningText"

subsection \<open>What the port does to its collaborators\<close>

datatype 'v LogText =
  ProducedCommunicationWarning "'v WarningText"
  | ReceivedCommunicationWarning string
  | WarningsSuppressed

datatype ('v, 'e) Event =
  Send "'v ClientToServerMessage"            \<comment> \<open>\<^verbatim>\<open>transport.send(frame)\<close>\<close>
  | OnHavingNoOpenCommunication               \<comment> \<open>transport edge\<close>
  | OnHavingOneOrMoreOpenCommunication        \<comment> \<open>transport edge\<close>
  | WarnText "'v LogText"                     \<comment> \<open>\<^verbatim>\<open>logger.warnText\<close>\<close>
  | ErrorText "'v LogText"                    \<comment> \<open>\<^verbatim>\<open>logger.errorText\<close>\<close>
  | ChannelReceivedMessage nat 'v             \<comment> \<open>sinks of the channel object\<close>
  | ChannelReceivedAck nat nat
  | ChannelErrored nat 'e
  | ChannelClosed nat
  | SignalSetValue nat 'v "WriteTag list"     \<comment> \<open>listener of the signal object\<close>
  | SignalErrored nat 'e                      \<comment> \<open>error listener of the signal object\<close>

subsection \<open>In-flight records and the objects they point to\<close>

text \<open>
  A promise is pending, fulfilled with a value, rejected with an error given to
  \<^verbatim>\<open>reject\<close>, or, when it is the promise of an async function whose body raised,
  rejected with what the body raised.
\<close>

datatype ('v, 'e) PromiseState = Pending | Fulfilled 'v | Rejected 'e | RejectedThrown thrown

text \<open>
  \<open>promise\<close> is the promise made by \<^verbatim>\<open>makePromise\<close>, whose \<^verbatim>\<open>resolve\<close> and
  \<^verbatim>\<open>reject\<close> the record holds.
\<close>

record 'v OngoingRpc =
  rpcEndpoint :: "'v RpcEndpoint"
  rpcStack :: string
  promise :: nat

text \<open>
  \<open>channel\<close> is the object made by \<^verbatim>\<open>Channel.create\<close>, whose \<^verbatim>\<open>receivedAck\<close>,
  \<^verbatim>\<open>receivedMessage\<close>, \<^verbatim>\<open>errored\<close> and \<^verbatim>\<open>closed\<close> the record holds.
\<close>

record 'v OpenChannel =
  channelEndpoint :: "'v ChannelEndpoint"
  channelStack :: string
  channel :: nat

text \<open>
  \<open>signal\<close> is the signal object: \<^verbatim>\<open>getValue\<close> reads it, \<^verbatim>\<open>setValue\<close> and
  \<^verbatim>\<open>errored\<close> are its listener and error listener. Read-only and writable
  subscriptions have the same fields.
\<close>

record 'v OpenSignalSubscription =
  signalEndpoint :: "'v SignalEndpoint"
  signal :: nat
  signalStack :: string

text \<open>The variables the send closure of a channel captures.\<close>

record 'v ChannelObject =
  chEndpoint :: "'v ChannelEndpoint"
  chChannelId :: nat

text \<open>
  A signal object. The first five fields are the variables the closures of
  \<^verbatim>\<open>createSignal\<close> and \<^verbatim>\<open>createWritableSignal\<close> capture; \<open>currentSubscribeId\<close>
  is the variable of that name in \<^verbatim>\<open>createWritableSignal\<close> (\<open>None\<close> is \<^verbatim>\<open>null\<close>).

  Modelled from the spec: \<^verbatim>\<open>LazySignal\<close> is not under src/ (and \<^verbatim>\<open>OWLSignal\<close> is
  there only in part). By the spec (4.4) a lazy signal holds a current value, initially
  not-available, and calls \<^verbatim>\<open>subscribeUpstream\<close> exactly when the first observer
  attaches and the returned teardown exactly when the last observer detaches. The last
  three fields are this state: the current value, the number of attached observers and
  the teardown of the running upstream session (the \<^verbatim>\<open>subscribeId\<close> it captured).
\<close>

record 'v SignalObject =
  sigEndpointName :: string
  sigEndpoint :: "'v SignalEndpoint"
  sigCreationParameter :: 'v
  sigStack :: string
  sigWritable :: bool
  currentSubscribeId :: "nat option"
  sigValue :: 'v
  observers :: nat
  teardown :: "nat option"

type_synonym ('k, 'a) JsMap = "('k \<times> 'a) list"

record ('v, 'e) ClientPort =
  openChannels :: "(nat, 'v OpenChannel) JsMap"
  ongoingRpcs :: "(nat, 'v OngoingRpc) JsMap"
  openSignalSubscriptions :: "(nat, 'v OpenSignalSubscription) JsMap"
  openWritableSignalSubscriptions :: "(nat, 'v OpenSignalSubscription) JsMap"
  openCommunicationsCount :: nat
  nextChannelId :: nat
  nextSubscribeId :: nat
  nextWritableSubscribeId :: nat
  producedCommunicationWarningsCount :: nat
  promises :: "('v, 'e) PromiseState list"
  channels :: "'v ChannelObject list"
  signals :: "'v SignalObject list"
  events :: "('v, 'e) Event list"

text \<open>
  What the port is constructed with, and the functions it imports: the error
  deserializer, the verbose-error flag, \<^verbatim>\<open>getCurrentStack(1)\<close>, immer's
  \<^verbatim>\<open>applyPatches\<close> (\<open>None\<close> when it throws) and the not-available value of signals.
\<close>

record ('v, 'e) Env =
  backendInterface :: "'v BackendInterface"
  errorDeserializer :: "'v \<Rightarrow> string option \<Rightarrow> 'e"
  verboseErrorMessage :: bool
  getCurrentStack :: string
  applyPatches :: "'v \<Rightarrow> 'v Patch list \<Rightarrow> 'v option"
  NOT_AVAILABLE :: 'v

definition newClientPort :: "('v, 'e) ClientPort" where
  "newClientPort =
     \<lparr> openChannels = [], ongoingRpcs = [], openSignalSubscriptions = [],
       openWritableSignalSubscriptions = [], openCommunicationsCount = 0,
       nextChannelId = 0, nextSubscribeId = 0, nextWritableSubscribeId = 0,
       producedCommunicationWarningsCount = 0,
       promises = [], channels = [], signals = [], events = [] \<rparr>"

subsection \<open>Transport, logger, promises\<close>

definition emit :: "('v, 'e) Event \<Rightarrow> ('v, 'e) ClientPort \<Rightarrow> ('v, 'e) ClientPort" where
  "emit e s = s\<lparr>events := events s @ [e]\<rparr>"

definition transportSend ::
  "'v ClientToServerMessage \<Rightarrow> ('v, 'e) ClientPort \<Rightarrow> ('v, 'e) ClientPort" where
  "transportSend frame s = emit (Send frame) s"

definition makePromise :: "('v, 'e) ClientPort \<Rightarrow> nat \<times> ('v, 'e) ClientPort" where
  "makePromise s = (length (promises s), s\<lparr>promises := promises s @ [Pending]\<rparr>)"

text \<open>Settling a promise that is already settled does nothing.\<close>

definition settle ::
  "nat \<Rightarrow> ('v, 'e) PromiseState \<Rightarrow> ('v, 'e) ClientPort \<Rightarrow> ('v, 'e) ClientPort" where
  "settle p r s =
     (if p < length (promises s) \<and> promises s ! p = Pending
      then s\<lparr>promises := (promises s)[p := r]\<rparr> else s)"

definition resolve :: "'v OngoingRpc \<Rightarrow> 'v \<Rightarrow> ('v, 'e) ClientPort \<Rightarrow> ('v, 'e) ClientPort" where
  "resolve ongoingRpc result s = settle (promise ongoingRpc) (Fulfilled result) s"

definition reject :: "'v OngoingRpc \<Rightarrow> 'e \<Rightarrow> ('v, 'e) ClientPort \<Rightarrow> ('v, 'e) ClientPort" where
  "reject ongoingRpc err s = settle (promise ongoingRpc) (Rejected err) s"

subsection \<open>Sinks of signal objects\<close>

definition getValue :: "'v OpenSignalSubscription \<Rightarrow> ('v, 'e) ClientPort \<Rightarrow> 'v" where
  "getValue sub s = sigValue (signals s ! signal sub)"

text \<open>
  Modelled from the spec: the listener a lazy signal hands to \<^verbatim>\<open>subscribeUpstream\<close>
  is not under src/. It takes the new value with its tags and makes it the signal's
  current value.
\<close>

definition setValue ::
  "'v OpenSignalSubscription \<Rightarrow> 'v \<Rightarrow> WriteTag list \<Rightarrow> ('v, 'e) ClientPort
     \<Rightarrow> ('v, 'e) ClientPort" where
  "setValue sub v tags s =
     emit (SignalSetValue (signal sub) v tags)
       (s\<lparr>signals := (signals s)[signal sub := (signals s ! signal sub)\<lparr>sigValue := v\<rparr>]\<rparr>)"

subsection \<open>Private methods of the port\<close>

definition communicationWarning ::
  "'v WarningText \<Rightarrow> ('v, 'e) ClientPort \<Rightarrow> ('v, 'e) ClientPort" where
  "communicationWarning warning s =
     (if producedCommunicationWarningsCount s \<ge> 5 then s
      else
        let s1 = emit (WarnText (ProducedCommunicationWarning warning)) s;
            s2 = transportSend (Out_communicationWarning warning) s1;
            s3 = s2\<lparr>producedCommunicationWarningsCount :=
                      producedCommunicationWarningsCount s2 + 1\<rparr>
        in if producedCommunicationWarningsCount s3 \<ge> 5
           then emit (ErrorText WarningsSuppressed) s3 else s3)"

definition updateOpenCommunicationsCount :: "('v, 'e) ClientPort \<Rightarrow> ('v, 'e) ClientPort" where
  "updateOpenCommunicationsCount s =
     (let previousCount = openCommunicationsCount s;
          s1 = s\<lparr>openCommunicationsCount :=
                    length (openChannels s) + length (ongoingRpcs s)
                    + length (openSignalSubscriptions s)
                    + length (openWritableSignalSubscriptions s)\<rparr>
      in if openCommunicationsCount s1 = 0 \<and> previousCount > 0
         then emit OnHavingNoOpenCommunication s1
         else if openCommunicationsCount s1 = 1 \<and> previousCount = 0
         then emit OnHavingOneOrMoreOpenCommunication s1
         else s1)"

definition stackIfVerbose :: "('v, 'e) Env \<Rightarrow> string \<Rightarrow> string option" where
  "stackIfVerbose env stack = (if verboseErrorMessage env then Some stack else None)"

definition receivedChannelSend ::
  "nat \<Rightarrow> 'v \<Rightarrow> ('v, 'e) ClientPort \<Rightarrow> ('v, 'e) ClientPort" where
  "receivedChannelSend channelId message s =
     (case map_of (openChannels s) channelId of
        None \<Rightarrow> communicationWarning (ReceivedForUnknown channelSend channelId) s
      | Some openChannel \<Rightarrow>
          (case safeParse (toClientPacket (channelEndpoint openChannel)) message of
             None \<Rightarrow>
               communicationWarning
                 (ReceivedInvalidMessageForChannel
                    (channelName (channelEndpoint openChannel)) message) s
           | Some data \<Rightarrow> emit (ChannelReceivedMessage (channel openChannel) data) s))"

definition receivedChannelAck ::
  "nat \<Rightarrow> nat \<Rightarrow> ('v, 'e) ClientPort \<Rightarrow> ('v, 'e) ClientPort" where
  "receivedChannelAck channelId ackId s =
     (case map_of (openChannels s) channelId of
        None \<Rightarrow> communicationWarning (ReceivedForUnknown channelAck channelId) s
      | Some openChannel \<Rightarrow> emit (ChannelReceivedAck (channel openChannel) ackId) s)"

definition receivedChannelClose :: "nat \<Rightarrow> ('v, 'e) ClientPort \<Rightarrow> ('v, 'e) ClientPort" where
  "receivedChannelClose channelId s =
     (case map_of (openChannels s) channelId of
        None \<Rightarrow> communicationWarning (ReceivedForUnknown channelClose channelId) s
      | Some openChannel \<Rightarrow>
          let s1 = s\<lparr>openChannels := AList.delete channelId (openChannels s)\<rparr>;
              s2 = emit (ChannelClosed (channel openChannel)) s1
          in updateOpenCommunicationsCount s2)"

definition receivedChannelError ::
  "('v, 'e) Env \<Rightarrow> nat \<Rightarrow> 'v \<Rightarrow> ('v, 'e) ClientPort \<Rightarrow> ('v, 'e) ClientPort" where
  "receivedChannelError env channelId serialized s =
     (case map_of (openChannels s) channelId of
        None \<Rightarrow> communicationWarning (ReceivedForUnknown channelError channelId) s
      | Some openChannel \<Rightarrow>
          let s1 = s\<lparr>openChannels := AList.delete channelId (openChannels s)\<rparr>;
              err = errorDeserializer env serialized
                      (stackIfVerbose env (channelStack openChannel));
              s2 = emit (ChannelErrored (channel openChannel) err) s1
          in updateOpenCommunicationsCount s2)"

definition receivedRpcResult ::
  "nat \<Rightarrow> 'v \<Rightarrow> ('v, 'e) ClientPort \<Rightarrow> ('v, 'e) ClientPort" where
  "receivedRpcResult callId result s =
     (case map_of (ongoingRpcs s) callId of
        None \<Rightarrow> communicationWarning (ReceivedForUnknown rpcResult callId) s
      | Some ongoingRpc \<Rightarrow>
          (case safeParse (returns (rpcEndpoint ongoingRpc)) result of
             None \<Rightarrow>
               communicationWarning
                 (ReceivedInvalidResultForRpc (rpcName (rpcEndpoint ongoingRpc)) result) s
           | Some data \<Rightarrow>
               let s1 = resolve ongoingRpc data s;
                   s2 = s1\<lparr>ongoingRpcs := AList.delete callId (ongoingRpcs s1)\<rparr>
               in updateOpenCommunicationsCount s2))"

definition receivedRpcError ::
  "('v, 'e) Env \<Rightarrow> nat \<Rightarrow> 'v \<Rightarrow> ('v, 'e) ClientPort \<Rightarrow> ('v, 'e) ClientPort" where
  "receivedRpcError env callId serialized s =
     (case map_of (ongoingRpcs s) callId of
        None \<Rightarrow> communicationWarning (ReceivedForUnknown rpcError callId) s
      | Some ongoingRpc \<Rightarrow>
          let err = errorDeserializer env serialized
                      (stackIfVerbose env (rpcStack ongoingRpc));
              s1 = reject ongoingRpc err s;
              s2 = s1\<lparr>ongoingRpcs := AList.delete callId (ongoingRpcs s1)\<rparr>
          in updateOpenCommunicationsCount s2)"

definition receivedSignalUpdate ::
  "('v, 'e) Env \<Rightarrow> nat \<Rightarrow> 'v Patch list \<Rightarrow> WriteTag list \<Rightarrow> ('v, 'e) ClientPort
     \<Rightarrow> thrown + ('v, 'e) ClientPort" where
  "receivedSignalUpdate env subscribeId patches tags s =
     (case map_of (openSignalSubscriptions s) subscribeId of
        None \<Rightarrow> Inr (communicationWarning (ReceivedForUnknown signalUpdate subscribeId) s)
      | Some openSignalSubscription \<Rightarrow>
          let beforeValue = getValue openSignalSubscription s in
          (case applyPatches env (getValue openSignalSubscription s) patches of
             None \<Rightarrow> Inl ImmerError
           | Some afterValue \<Rightarrow>
               (case safeParse (signalData (signalEndpoint openSignalSubscription))
                       afterValue of
                  None \<Rightarrow>
                    Inr (communicationWarning
                           (ReceivedInvalidSignalPatchData subscribeId patches
                              beforeValue afterValue) s)
                | Some data \<Rightarrow> Inr (setValue openSignalSubscription data tags s))))"

definition receivedSignalError ::
  "('v, 'e) Env \<Rightarrow> nat \<Rightarrow> 'v \<Rightarrow> ('v, 'e) ClientPort \<Rightarrow> ('v, 'e) ClientPort" where
  "receivedSignalError env subscribeId serialized s =
     (case map_of (openSignalSubscriptions s) subscribeId of
        None \<Rightarrow> communicationWarning (ReceivedForUnknown signalError subscribeId) s
      | Some openSignalSubscription \<Rightarrow>
          let err = errorDeserializer env serialized
                      (stackIfVerbose env (signalStack openSignalSubscription));
              s1 = emit (SignalErrored (signal openSignalSubscription) err) s;
              s2 = s1\<lparr>openSignalSubscriptions :=
                        AList.delete subscribeId (openSignalSubscriptions s1)\<rparr>
          in updateOpenCommunicationsCount s2)"

definition receivedWritableSignalUpdate ::
  "('v, 'e) Env \<Rightarrow> nat \<Rightarrow> 'v Patch list \<Rightarrow> WriteTag list \<Rightarrow> ('v, 'e) ClientPort
     \<Rightarrow> thrown + ('v, 'e) ClientPort" where
  "receivedWritableSignalUpdate env subscribeId patches tags s =
     (case map_of (openWritableSignalSubscriptions s) subscribeId of
        None \<Rightarrow>
          Inr (communicationWarning (ReceivedForUnknown writableSignalUpdate subscribeId) s)
      | Some openSignalSubscription \<Rightarrow>
          let beforeValue = getValue openSignalSubscription s in
          (case applyPatches env (getValue openSignalSubscription s) patches of
             None \<Rightarrow> Inl ImmerError
           | Some afterValue \<Rightarrow>
               (case safeParse (signalData (signalEndpoint openSignalSubscription))
                       afterValue of
                  None \<Rightarrow>
                    Inr (communicationWarning
                           (ReceivedInvalidWritableSignalPatchData subscribeId patches
                              beforeValue afterValue) s)
                | Some data \<Rightarrow> Inr (setValue openSignalSubscription data tags s))))"

definition receivedWritableSignalError ::
  "('v, 'e) Env \<Rightarrow> nat \<Rightarrow> 'v \<Rightarrow> ('v, 'e) ClientPort \<Rightarrow> ('v, 'e) ClientPort" where
  "receivedWritableSignalError env subscribeId serialized s =
     (case map_of (openWritableSignalSubscriptions s) subscribeId of
        None \<Rightarrow>
          communicationWarning (ReceivedForUnknown writableSignalError subscribeId) s
      | Some openSignalSubscription \<Rightarrow>
          let err = errorDeserializer env serialized
                      (stackIfVerbose env (signalStack openSignalSubscription));
              s1 = emit (SignalErrored (signal openSignalSubscription) err) s;
              s2 = s1\<lparr>openWritableSignalSubscriptions :=
                        AList.delete subscribeId (openWritableSignalSubscriptions s1)\<rparr>
          in updateOpenCommunicationsCount s2)"

definition receivedCommunicationWarning ::
  "string \<Rightarrow> ('v, 'e) ClientPort \<Rightarrow> ('v, 'e) ClientPort" where
  "receivedCommunicationWarning warning s =
     emit (WarnText (ReceivedCommunicationWarning warning)) s"

definition receivedKeepAliveAck :: "('v, 'e) ClientPort \<Rightarrow> ('v, 'e) ClientPort" where
  "receivedKeepAliveAck s = s"

fun receivedMessage ::
  "('v, 'e) Env \<Rightarrow> 'v ServerToClientMessage \<Rightarrow> ('v, 'e) ClientPort
     \<Rightarrow> thrown + ('v, 'e) ClientPort" where
  "receivedMessage env (In_channelSend channelId message) s =
     Inr (receivedChannelSend channelId message s)"
| "receivedMessage env (In_channelAck channelId ackId) s =
     Inr (receivedChannelAck channelId ackId s)"
| "receivedMessage env (In_channelClose channelId) s = Inr (receivedChannelClose channelId s)"
| "receivedMessage env (In_channelError channelId err) s =
     Inr (receivedChannelError env channelId err s)"
| "receivedMessage env (In_rpcResult callId result) s = Inr (receivedRpcResult callId result s)"
| "receivedMessage env (In_rpcError callId err) s = Inr (receivedRpcError env callId err s)"
| "receivedMessage env (In_signalUpdate subscribeId patches tags) s =
     receivedSignalUpdate env subscribeId patches tags s"
| "receivedMessage env (In_signalError subscribeId err) s =
     Inr (receivedSignalError env subscribeId err s)"
| "receivedMessage env (In_writableSignalUpdate subscribeId patches tags) s =
     receivedWritableSignalUpdate env subscribeId patches tags s"
| "receivedMessage env (In_writableSignalError subscribeId err) s =
     Inr (receivedWritableSignalError env subscribeId err s)"
| "receivedMessage env (In_communicationWarning warning) s =
     Inr (receivedCommunicationWarning warning s)"
| "receivedMessage env In_keepAliveAck s = Inr (receivedKeepAliveAck s)"

text \<open>
  The transport's \<^verbatim>\<open>onError\<close> callback. A JavaScript map is walked in insertion
  order; the two loops only call the sinks.
\<close>

definition errored :: "'e \<Rightarrow> ('v, 'e) ClientPort \<Rightarrow> ('v, 'e) ClientPort" where
  "errored err s =
     (let s1 = foldl (\<lambda>t openChannel. emit (ChannelErrored (channel openChannel) err) t)
                 s (map snd (openChannels s))
      in foldl (\<lambda>t ongoingRpc. reject ongoingRpc err t) s1 (map snd (ongoingRpcs s1)))"

subsection \<open>Public methods of the port\<close>

definition stackOrCurrent :: "('v, 'e) Env \<Rightarrow> string option \<Rightarrow> string" where
  "stackOrCurrent env stack = (case stack of None \<Rightarrow> getCurrentStack env | Some st \<Rightarrow> st)"

text \<open>
  The body of \<^verbatim>\<open>callRpc\<close> up to its only \<^verbatim>\<open>await\<close>: it either raises or gets to
  await the promise made by \<^verbatim>\<open>makePromise\<close>.
\<close>

definition callRpcBody ::
  "('v, 'e) Env \<Rightarrow> string \<Rightarrow> 'v \<Rightarrow> string option \<Rightarrow> ('v, 'e) ClientPort
     \<Rightarrow> thrown + (nat \<times> ('v, 'e) ClientPort)" where
  "callRpcBody env endpointName param stack s =
     (case getRpcEndpoint (backendInterface env) endpointName of
        None \<Rightarrow> Inl (Error (''No Rpc endpoint with name '' @ endpointName))
      | Some endpoint \<Rightarrow>
          (case parse (parameter endpoint) param of
             Inl zodError \<Rightarrow> Inl zodError
           | Inr validated \<Rightarrow>
               let callId = nextChannelId s;
                   s1 = s\<lparr>nextChannelId := nextChannelId s + 1\<rparr>;
                   (p, s2) = makePromise s1;
                   s3 = s2\<lparr>ongoingRpcs :=
                             AList.update callId
                               \<lparr>rpcEndpoint = endpoint,
                                rpcStack = stackOrCurrent env stack,
                                promise = p\<rparr>
                               (ongoingRpcs s2)\<rparr>;
                   s4 = transportSend (Out_rpcCall endpointName callId validated) s3;
                   s5 = updateOpenCommunicationsCount s4
               in Inr (p, s5)))"

text \<open>
  \<^verbatim>\<open>callRpc\<close> is declared \<^verbatim>\<open>async\<close>. A call of an async function never raises to
  its caller: it returns a promise. When the body raises before its first await, the
  promise returned is already rejected with what was raised. When the body gets to
  \<^verbatim>\<open>return await promise\<close>, the promise returned settles as the awaited one does, and
  stands for it here. A result \<open>Inl\<close> is a raise to the caller, as
  \<^verbatim>\<open>createChannel\<close> has it; an async function has none.
\<close>

definition rejectedPromise ::
  "thrown \<Rightarrow> ('v, 'e) ClientPort \<Rightarrow> nat \<times> ('v, 'e) ClientPort" where
  "rejectedPromise err s =
     (length (promises s), s\<lparr>promises := promises s @ [RejectedThrown err]\<rparr>)"

definition async ::
  "(('v, 'e) ClientPort \<Rightarrow> thrown + (nat \<times> ('v, 'e) ClientPort))
     \<Rightarrow> ('v, 'e) ClientPort \<Rightarrow> thrown + (nat \<times> ('v, 'e) ClientPort)" where
  "async body s =
     (case body s of
        Inl err \<Rightarrow> Inr (rejectedPromise err s)
      | Inr awaited \<Rightarrow> Inr awaited)"

definition callRpc ::
  "('v, 'e) Env \<Rightarrow> string \<Rightarrow> 'v \<Rightarrow> string option \<Rightarrow> ('v, 'e) ClientPort
     \<Rightarrow> thrown + (nat \<times> ('v, 'e) ClientPort)" where
  "callRpc env endpointName param stack s =
     async (callRpcBody env endpointName param stack) s"

text \<open>
  \<^verbatim>\<open>createChannel\<close> returns the channel object. The optional \<^verbatim>\<open>onMessage\<close> argument
  is only handed to the channel object and is left out.
\<close>

definition createChannel ::
  "('v, 'e) Env \<Rightarrow> string \<Rightarrow> 'v \<Rightarrow> string option \<Rightarrow> ('v, 'e) ClientPort
     \<Rightarrow> thrown + (nat \<times> ('v, 'e) ClientPort)" where
  "createChannel env endpointName param stack s =
     (case getChannelEndpoint (backendInterface env) endpointName of
        None \<Rightarrow> Inl (Error (''No channel endpoint with name '' @ endpointName))
      | Some endpoint \<Rightarrow>
          (case parse (channelCreationParameter endpoint) param of
             Inl zodError \<Rightarrow> Inl zodError
           | Inr validated \<Rightarrow>
               let channelId = nextChannelId s;
                   s1 = s\<lparr>nextChannelId := nextChannelId s + 1\<rparr>;
                   s2 = transportSend (Out_channelCreate endpointName channelId validated) s1;
                   c = length (channels s2);
                   s3 = s2\<lparr>channels :=
                             channels s2 @ [\<lparr>chEndpoint = endpoint, chChannelId = channelId\<rparr>]\<rparr>;
                   s4 = s3\<lparr>openChannels :=
                             AList.update channelId
                               \<lparr>channelEndpoint = endpoint,
                                channelStack = stackOrCurrent env stack,
                                channel = c\<rparr>
                               (openChannels s3)\<rparr>;
                   s5 = updateOpenCommunicationsCount s4
               in Inr (c, s5)))"

text \<open>The closure given to \<^verbatim>\<open>Channel.create\<close>: the channel's outbound sink.\<close>

definition channelSendPacket ::
  "nat \<Rightarrow> 'v \<Rightarrow> ('v, 'e) ClientPort \<Rightarrow> thrown + ('v, 'e) ClientPort" where
  "channelSendPacket c packet s =
     (case parse (toServerPacket (chEndpoint (channels s ! c))) packet of
        Inl zodError \<Rightarrow> Inl zodError
      | Inr result \<Rightarrow>
          Inr (transportSend (Out_channelSend (chChannelId (channels s ! c)) result) s))"

definition newSignalObject ::
  "('v, 'e) Env \<Rightarrow> string \<Rightarrow> 'v SignalEndpoint \<Rightarrow> 'v \<Rightarrow> string \<Rightarrow> bool \<Rightarrow> 'v SignalObject" where
  "newSignalObject env endpointName endpoint validated stack writable =
     \<lparr>sigEndpointName = endpointName, sigEndpoint = endpoint,
      sigCreationParameter = validated, sigStack = stack, sigWritable = writable,
      currentSubscribeId = None, sigValue = NOT_AVAILABLE env, observers = 0,
      teardown = None\<rparr>"

definition createSignal ::
  "('v, 'e) Env \<Rightarrow> string \<Rightarrow> 'v \<Rightarrow> string option \<Rightarrow> ('v, 'e) ClientPort
     \<Rightarrow> thrown + (nat \<times> ('v, 'e) ClientPort)" where
  "createSignal env endpointName param stack s =
     (case getSignalEndpoint (backendInterface env) endpointName of
        None \<Rightarrow> Inl (Error (''No signal endpoint with name '' @ endpointName))
      | Some endpoint \<Rightarrow>
          (case parse (creationParameter endpoint) param of
             Inl zodError \<Rightarrow> Inl zodError
           | Inr validated \<Rightarrow>
               Inr (length (signals s),
                    s\<lparr>signals := signals s @
                        [newSignalObject env endpointName endpoint validated
                           (stackOrCurrent env stack) False]\<rparr>)))"

definition createWritableSignal ::
  "('v, 'e) Env \<Rightarrow> string \<Rightarrow> 'v \<Rightarrow> string option \<Rightarrow> ('v, 'e) ClientPort
     \<Rightarrow> thrown + (nat \<times> ('v, 'e) ClientPort)" where
  "createWritableSignal env endpointName param stack s =
     (case getWritableSignalEndpoint (backendInterface env) endpointName of
        None \<Rightarrow> Inl (Error (''No writable signal endpoint with name '' @ endpointName))
      | Some endpoint \<Rightarrow>
          (case parse (creationParameter endpoint) param of
             Inl zodError \<Rightarrow> Inl zodError
           | Inr validated \<Rightarrow>
               Inr (length (signals s),
                    s\<lparr>signals := signals s @
                        [newSignalObject env endpointName endpoint validated
                           (stackOrCurrent env stack) True]\<rparr>)))"

text \<open>
  The closure \<^verbatim>\<open>createSignal\<close> gives to the lazy signal as \<^verbatim>\<open>subscribeUpstream\<close>, for
  the signal object \<open>h\<close>. It returns the teardown closure, that is the \<^verbatim>\<open>subscribeId\<close>
  the teardown captures.
\<close>

definition signalSubscribeUpstream ::
  "nat \<Rightarrow> ('v, 'e) ClientPort \<Rightarrow> nat \<times> ('v, 'e) ClientPort" where
  "signalSubscribeUpstream h s =
     (let obj = signals s ! h;
          subscribeId = nextSubscribeId s;
          s1 = s\<lparr>nextSubscribeId := nextSubscribeId s + 1\<rparr>;
          s2 = transportSend
                 (Out_signalSubscribe (sigEndpointName obj) subscribeId
                    (sigCreationParameter obj)) s1;
          s3 = s2\<lparr>openSignalSubscriptions :=
                    AList.update subscribeId
                      \<lparr>signalEndpoint = sigEndpoint obj, signal = h,
                       signalStack = sigStack obj\<rparr>
                      (openSignalSubscriptions s2)\<rparr>;
          s4 = updateOpenCommunicationsCount s3
      in (subscribeId, s4))"

definition signalTeardown :: "nat \<Rightarrow> ('v, 'e) ClientPort \<Rightarrow> ('v, 'e) ClientPort" where
  "signalTeardown subscribeId s = transportSend (Out_signalUnsubscribe subscribeId) s"

definition setCurrentSubscribeId ::
  "nat \<Rightarrow> nat option \<Rightarrow> ('v, 'e) ClientPort \<Rightarrow> ('v, 'e) ClientPort" where
  "setCurrentSubscribeId h v s =
     s\<lparr>signals := (signals s)[h := (signals s ! h)\<lparr>currentSubscribeId := v\<rparr>]\<rparr>"

definition writeUpstream ::
  "nat \<Rightarrow> 'v \<Rightarrow> 'v Patch list \<Rightarrow> WriteTag list \<Rightarrow> ('v, 'e) ClientPort
     \<Rightarrow> thrown + ('v, 'e) ClientPort" where
  "writeUpstream h data patches tags s =
     (case currentSubscribeId (signals s ! h) of
        None \<Rightarrow> Inl (Error ''writeUpstream called when not subscribed'')
      | Some subscribeId \<Rightarrow>
          Inr (transportSend (Out_writableSignalUpdate subscribeId patches tags) s))"

definition writableSignalSubscribeUpstream ::
  "nat \<Rightarrow> ('v, 'e) ClientPort \<Rightarrow> nat \<times> ('v, 'e) ClientPort" where
  "writableSignalSubscribeUpstream h s =
     (let obj = signals s ! h;
          subscribeId = nextWritableSubscribeId s;
          s0 = setCurrentSubscribeId h (Some subscribeId) s;
          s1 = s0\<lparr>nextWritableSubscribeId := nextWritableSubscribeId s0 + 1\<rparr>;
          s2 = transportSend
                 (Out_writableSignalSubscribe (sigEndpointName obj) subscribeId
                    (sigCreationParameter obj)) s1;
          s3 = s2\<lparr>openWritableSignalSubscriptions :=
                    AList.update subscribeId
                      \<lparr>signalEndpoint = sigEndpoint obj, signal = h,
                       signalStack = sigStack obj\<rparr>
                      (openWritableSignalSubscriptions s2)\<rparr>;
          s4 = updateOpenCommunicationsCount s3
      in (subscribeId, s4))"

definition writableSignalTeardown ::
  "nat \<Rightarrow> nat \<Rightarrow> ('v, 'e) ClientPort \<Rightarrow> ('v, 'e) ClientPort" where
  "writableSignalTeardown h subscribeId s =
     transportSend (Out_writableSignalUnsubscribe subscribeId)
       (setCurrentSubscribeId h None s)"

subsection \<open>Observers of a lazy signal\<close>

text \<open>
  Modelled from the spec: \<^verbatim>\<open>LazySignal.subscribe\<close> and the unsubscribe handle it
  returns are not under src/. By the spec (4.4) the signal calls \<^verbatim>\<open>subscribeUpstream\<close>
  exactly when the first observer attaches and the returned teardown exactly when the
  last observer detaches; a later first observer starts a fresh upstream session.
\<close>

definition setObservers ::
  "nat \<Rightarrow> nat \<Rightarrow> nat option \<Rightarrow> ('v, 'e) ClientPort \<Rightarrow> ('v, 'e) ClientPort" where
  "setObservers h n td s =
     s\<lparr>signals := (signals s)[h := (signals s ! h)\<lparr>observers := n, teardown := td\<rparr>]\<rparr>"

definition subscribeUpstream :: "nat \<Rightarrow> ('v, 'e) ClientPort \<Rightarrow> nat \<times> ('v, 'e) ClientPort" where
  "subscribeUpstream h s =
     (if sigWritable (signals s ! h) then writableSignalSubscribeUpstream h s
      else signalSubscribeUpstream h s)"

definition runTeardown :: "nat \<Rightarrow> nat \<Rightarrow> ('v, 'e) ClientPort \<Rightarrow> ('v, 'e) ClientPort" where
  "runTeardown h subscribeId s =
     (if sigWritable (signals s ! h) then writableSignalTeardown h subscribeId s
      else signalTeardown subscribeId s)"

definition attachObserver :: "nat \<Rightarrow> ('v, 'e) ClientPort \<Rightarrow> ('v, 'e) ClientPort" where
  "attachObserver h s =
     (if observers (signals s ! h) = 0
      then (let (subscribeId, s1) = subscribeUpstream h s
            in setObservers h 1 (Some subscribeId) s1)
      else setObservers h (observers (signals s ! h) + 1) (teardown (signals s ! h)) s)"

definition detachObserver :: "nat \<Rightarrow> ('v, 'e) ClientPort \<Rightarrow> ('v, 'e) ClientPort" where
  "detachObserver h s =
     (if observers (signals s ! h) = 0 then s
      else if observers (signals s ! h) = 1
      then (let s1 = (case teardown (signals s ! h) of
                        None \<Rightarrow> s
                      | Some subscribeId \<Rightarrow> runTeardown h subscribeId s)
            in setObservers h 0 None s1)
      else setObservers h (observers (signals s ! h) - 1) (teardown (signals s ! h)) s)"

subsection \<open>Runs of a port\<close>

text \<open>
  Everything that can happen to a port: the two callbacks of the transport, the public
  methods, and the calls that channel and signal objects make into the port's closures.
  An operation on an object that does not exist, and an operation that raises to its
  caller, leave the port as it is (every raise of the source comes before the first
  write).
\<close>

datatype ('v, 'e) Operation =
  OnMessage "'v ServerToClientMessage"
  | OnError 'e
  | CallRpc string 'v "string option"
  | CreateChannel string 'v "string option"
  | ChannelSendPacket nat 'v
  | CreateSignal string 'v "string option"
  | CreateWritableSignal string 'v "string option"
  | AttachObserver nat
  | DetachObserver nat
  | WriteUpstream nat 'v "'v Patch list" "WriteTag list"

definition orElse :: "'a \<Rightarrow> thrown + 'a \<Rightarrow> 'a" where
  "orElse s r = (case r of Inl _ \<Rightarrow> s | Inr s' \<Rightarrow> s')"

fun exec :: "('v, 'e) Env \<Rightarrow> ('v, 'e) ClientPort \<Rightarrow> ('v, 'e) Operation \<Rightarrow> ('v, 'e) ClientPort" where
  "exec env s (OnMessage message) = orElse s (receivedMessage env message s)"
| "exec env s (OnError err) = errored err s"
| "exec env s (CallRpc endpointName param stack) =
     orElse s (map_sum id snd (callRpc env endpointName param stack s))"
| "exec env s (CreateChannel endpointName param stack) =
     orElse s (map_sum id snd (createChannel env endpointName param stack s))"
| "exec env s (ChannelSendPacket c packet) =
     (if c < length (channels s) then orElse s (channelSendPacket c packet s) else s)"
| "exec env s (CreateSignal endpointName param stack) =
     orElse s (map_sum id snd (createSignal env endpointName param stack s))"
| "exec env s (CreateWritableSignal endpointName param stack) =
     orElse s (map_sum id snd (createWritableSignal env endpointName param stack s))"
| "exec env s (AttachObserver h) = (if h < length (signals s) then attachObserver h s else s)"
| "exec env s (DetachObserver h) = (if h < length (signals s) then detachObserver h s else s)"
| "exec env s (WriteUpstream h data patches tags) =
     (if h < length (signals s) \<and> sigWritable (signals s ! h)
      then orElse s (writeUpstream h data patches tags s) else s)"

definition run ::
  "('v, 'e) Env \<Rightarrow> ('v, 'e) Operation list \<Rightarrow> ('v, 'e) ClientPort" where
  "run env ops = foldl (exec env) newClientPort ops"

subsection \<open>A backend interface to run the port on\<close>

text \<open>
  Concrete values for the scenarios of the specification: JSON-like payloads, the
  schemas of an rpc endpoint \<^verbatim>\<open>add\<close> (parameter \<^verbatim>\<open>{a, b}\<close>, returns a number), of a
  channel endpoint \<^verbatim>\<open>chat\<close> and of a signal endpoint \<^verbatim>\<open>counter\<close> (data \<^verbatim>\<open>{n}\<close>).
  As zod's object schemas do, the schemas of objects give back the declared keys only.
\<close>

datatype json = JNotAvailable | JNull | JNum int | JStr string | JObj "(string \<times> json) list"

datatype demoError = Deserialized json "string option" | TransportFailure string

fun numberSchema :: "json ZodType" where
  "numberSchema (JNum n) = Some (JNum n)"
| "numberSchema _ = None"

fun stringSchema :: "json ZodType" where
  "stringSchema (JStr t) = Some (JStr t)"
| "stringSchema _ = None"

fun addParameterSchema :: "json ZodType" where
  "addParameterSchema (JObj kvs) =
     (case (map_of kvs ''a'', map_of kvs ''b'') of
        (Some (JNum a), Some (JNum b)) \<Rightarrow> Some (JObj [(''a'', JNum a), (''b'', JNum b)])
      | _ \<Rightarrow> None)"
| "addParameterSchema _ = None"

fun counterSchema :: "json ZodType" where
  "counterSchema (JObj kvs) =
     (case map_of kvs ''n'' of
        Some (JNum n) \<Rightarrow> Some (JObj [(''n'', JNum n)])
      | _ \<Rightarrow> None)"
| "counterSchema _ = None"

text \<open>Patches at the root and at one key of an object; any other patch raises.\<close>

fun applyPatch :: "json \<Rightarrow> json Patch \<Rightarrow> json option" where
  "applyPatch doc p =
     (case (op p, path p, patchValue p, doc) of
        (Replace, [], Some v, _) \<Rightarrow> Some v
      | (Replace, [Key k], Some v, JObj kvs) \<Rightarrow> Some (JObj (AList.update k v kvs))
      | (Add, [Key k], Some v, JObj kvs) \<Rightarrow> Some (JObj (AList.update k v kvs))
      | (Remove, [Key k], _, JObj kvs) \<Rightarrow> Some (JObj (AList.delete k kvs))
      | _ \<Rightarrow> None)"

fun demoApplyPatches :: "json \<Rightarrow> json Patch list \<Rightarrow> json option" where
  "demoApplyPatches doc [] = Some doc"
| "demoApplyPatches doc (p # ps) =
     (case applyPatch doc p of None \<Rightarrow> None | Some doc' \<Rightarrow> demoApplyPatches doc' ps)"

definition demoInterface :: "json BackendInterface" where
  "demoInterface =
     \<lparr>rpcEndpoints =
        [''add'' \<mapsto> \<lparr>rpcName = ''add'', parameter = addParameterSchema,
                      returns = numberSchema\<rparr>],
      channelEndpoints =
        [''chat'' \<mapsto> \<lparr>channelName = ''chat'', channelCreationParameter = stringSchema,
                       toServerPacket = stringSchema, toClientPacket = stringSchema\<rparr>],
      signalEndpoints =
        [''counter'' \<mapsto> \<lparr>signalName = ''counter'', creationParameter = stringSchema,
                          signalData = counterSchema\<rparr>],
      writableSignalEndpoints =
        [''setting'' \<mapsto> \<lparr>signalName = ''setting'', creationParameter = stringSchema,
                          signalData = counterSchema\<rparr>]\<rparr>"

definition demoEnv :: "(json, demoError) Env" where
  "demoEnv =
     \<lparr>backendInterface = demoInterface, errorDeserializer = Deserialized,
      verboseErrorMessage = False, getCurrentStack = ''at user code'',
      applyPatches = demoApplyPatches, NOT_AVAILABLE = JNotAvailable\<rparr>"

text \<open>The record the port installs for the first subscription of \<^verbatim>\<open>counter\<close>.\<close>

definition demoSub :: "json OpenSignalSubscription" where
  "demoSub = \<lparr>signalEndpoint = \<lparr>signalName = ''counter'', creationParameter = stringSchema,
                          signalData = counterSchema\<rparr>, signal = 0, signalStack = ''at user code''\<rparr>"

subsection \<open>Invariants of the tables\<close>

text \<open>
  A table is a JavaScript map kept as the list of its entries in insertion order; its
  size is the list's length as long as no key occurs twice. \<open>keysBelow n m\<close> says that
  and that every key of \<open>m\<close> was handed out by a counter that now stands at \<open>n\<close>.
  \<open>tablesConsistent\<close> holds after every operation of a port (\<open>tablesConsistent_run\<close>).
\<close>

definition keysBelow :: "nat \<Rightarrow> (nat, 'a) JsMap \<Rightarrow> bool" where
  "keysBelow n m = (distinct (map fst m) \<and> list_all (\<lambda>k. k < n) (map fst m))"

definition tablesConsistent :: "('v, 'e) ClientPort \<Rightarrow> bool" where
  "tablesConsistent s =
     (keysBelow (nextChannelId s) (openChannels s)
      \<and> keysBelow (nextChannelId s) (ongoingRpcs s)
      \<and> keysBelow (nextSubscribeId s) (openSignalSubscriptions s)
      \<and> keysBelow (nextWritableSubscribeId s) (openWritableSignalSubscriptions s)
      \<and> openCommunicationsCount s =
          length (openChannels s) + length (ongoingRpcs s)
          + length (openSignalSubscriptions s)
          + length (openWritableSignalSubscriptions s))"

subsection \<open>Identifiers in allocation order\<close>

text \<open>
  Every identifier the port takes from a counter goes out in a frame at once: a call id
  in \<^verbatim>\<open>rpcCall\<close>, a channel id in \<^verbatim>\<open>channelCreate\<close>, a subscribe id in
  \<^verbatim>\<open>signalSubscribe\<close> or \<^verbatim>\<open>writableSignalSubscribe\<close>. \<open>allocated ids s\<close> is the list of
  the identifiers of one kind in the order in which the port \<open>s\<close> has sent them.
\<close>

fun sharedCounterIds :: "('v, 'e) Event \<Rightarrow> nat list" where
  "sharedCounterIds (Send (Out_rpcCall endpointName callId p)) = [callId]"
| "sharedCounterIds (Send (Out_channelCreate endpointName channelId p)) = [channelId]"
| "sharedCounterIds _ = []"

fun callIds :: "('v, 'e) Event \<Rightarrow> nat list" where
  "callIds (Send (Out_rpcCall endpointName callId p)) = [callId]"
| "callIds _ = []"

fun channelIds :: "('v, 'e) Event \<Rightarrow> nat list" where
  "channelIds (Send (Out_channelCreate endpointName channelId p)) = [channelId]"
| "channelIds _ = []"

fun subscribeIds :: "('v, 'e) Event \<Rightarrow> nat list" where
  "subscribeIds (Send (Out_signalSubscribe endpointName subscribeId p)) = [subscribeId]"
| "subscribeIds _ = []"

fun writableSubscribeIds :: "('v, 'e) Event \<Rightarrow> nat list" where
  "writableSubscribeIds (Send (Out_writableSignalSubscribe endpointName subscribeId p))
     = [subscribeId]"
| "writableSubscribeIds _ = []"

definition allocated :: "(('v, 'e) Event \<Rightarrow> nat list) \<Rightarrow> ('v, 'e) ClientPort \<Rightarrow> nat list" where
  "allocated ids s = concat (map ids (events s))"

definition idsCounted :: "('v, 'e) ClientPort \<Rightarrow> bool" where
  "idsCounted s =
     (allocated sharedCounterIds s = [0..<nextChannelId s]
      \<and> allocated subscribeIds s = [0..<nextSubscribeId s]
      \<and> allocated writableSubscribeIds s = [0..<nextWritableSubscribeId s])"

subsection \<open>The warnings a port has produced\<close>

text \<open>
  The events of \<^verbatim>\<open>communicationWarning\<close>: the local warning line, the outbound
  \<^verbatim>\<open>communicationWarning\<close> frame, and the error line that says further warnings are
  not printed. \<open>cappedTrace n evs\<close> says of the events \<open>evs\<close> of a port whose warning
  counter stands at \<open>n\<close>: the counter is at most 5, \<open>n\<close> warning frames were sent,
  and the warning events are, in order, a warning line followed by its frame for each
  warning, and after the fifth pair the one error line.
\<close>

fun isWarningFrame :: "('v, 'e) Event \<Rightarrow> bool" where
  "isWarningFrame (Send (Out_communicationWarning w)) = True"
| "isWarningFrame _ = False"

fun isProducedWarningLog :: "('v, 'e) Event \<Rightarrow> bool" where
  "isProducedWarningLog (WarnText (ProducedCommunicationWarning w)) = True"
| "isProducedWarningLog _ = False"

fun isErrorLog :: "('v, 'e) Event \<Rightarrow> bool" where
  "isErrorLog (ErrorText t) = True"
| "isErrorLog _ = False"

definition isWarningEvent :: "('v, 'e) Event \<Rightarrow> bool" where
  "isWarningEvent e = (isProducedWarningLog e \<or> isWarningFrame e \<or> isErrorLog e)"

fun producedWarnings :: "('v, 'e) Event \<Rightarrow> 'v WarningText list" where
  "producedWarnings (Send (Out_communicationWarning w)) = [w]"
| "producedWarnings _ = []"

definition warningLines :: "'v WarningText \<Rightarrow> ('v, 'e) Event list" where
  "warningLines w = [WarnText (ProducedCommunicationWarning w), Send (Out_communicationWarning w)]"

definition cappedTrace :: "nat \<Rightarrow> ('v, 'e) Event list \<Rightarrow> bool" where
  "cappedTrace n evs =
     (n \<le> 5
      \<and> length (concat (map producedWarnings evs)) = n
      \<and> filter isWarningEvent evs
          = concat (map warningLines (concat (map producedWarnings evs)))
            @ (if n = 5 then [ErrorText WarningsSuppressed] else []))"

definition warningsCapped :: "('v, 'e) ClientPort \<Rightarrow> bool" where
  "warningsCapped s = cappedTrace (producedCommunicationWarningsCount s) (events s)"

subsection \<open>Upstream sessions of signals\<close>

text \<open>
  A signal object has a running upstream session exactly while it has observers: then,
  and only then, it holds the teardown of the session. For a writable signal the
  variable \<^verbatim>\<open>currentSubscribeId\<close> is the subscribe id of the running session, and
  \<^verbatim>\<open>null\<close> when there is none. \<open>sessionsConsistent\<close> holds after every operation of a
  port (\<open>sessionsConsistent_run\<close>).
\<close>

definition sessionConsistent :: "'v SignalObject \<Rightarrow> bool" where
  "sessionConsistent obj =
     ((observers obj = 0) = (teardown obj = None)
      \<and> (if sigWritable obj then currentSubscribeId obj = teardown obj else True))"

definition sessionsConsistent :: "('v, 'e) ClientPort \<Rightarrow> bool" where
  "sessionsConsistent s = list_all sessionConsistent (signals s)"

text \<open>A patch for the examples.\<close>

definition demoPatch :: "json Patch" where
  "demoPatch = \<lparr>op = Replace, path = [Key ''n''], patchValue = Some (JNum 1)\<rparr>"

subsection \<open>The promises of the rpcs in flight\<close>

text \<open>
  \<open>inFlightPromises\<close> lists the promises the records of the ongoing rpcs point to;
  \<open>promisesValid\<close> says that they exist and that no two records share one, which holds
  after every operation of a port (\<open>promisesValid_run\<close>). \<open>tracks callId r\<close> says
  that the call id has been handed out and, as long as a record is in the table under it,
  the record is \<open>r\<close>; \<open>pendingInFlight callId r\<close> says that as long as a record is
  in the table under the call id, the promise of \<open>r\<close> is pending.
  \<open>noTransportError\<close> holds of the operations among which the transport does not call
  \<^verbatim>\<open>onError\<close>.
\<close>

definition inFlightPromises :: "('v, 'e) ClientPort \<Rightarrow> nat list" where
  "inFlightPromises s = map (promise \<circ> snd) (ongoingRpcs s)"

definition promisesValid :: "('v, 'e) ClientPort \<Rightarrow> bool" where
  "promisesValid s =
     (distinct (inFlightPromises s)
      \<and> list_all (\<lambda>p. p < length (promises s)) (inFlightPromises s))"

fun isTransportError :: "('v, 'e) Operation \<Rightarrow> bool" where
  "isTransportError (OnError err) = True"
| "isTransportError _ = False"

definition noTransportError :: "('v, 'e) Operation list \<Rightarrow> bool" where
  "noTransportError ops = list_all (\<lambda>operation. \<not> isTransportError operation) ops"

definition tracks :: "nat \<Rightarrow> 'v OngoingRpc \<Rightarrow> ('v, 'e) ClientPort \<Rightarrow> bool" where
  "tracks callId r s =
     (callId < nextChannelId s
      \<and> (map_of (ongoingRpcs s) callId = None \<or> map_of (ongoingRpcs s) callId = Some r))"

definition pendingInFlight :: "nat \<Rightarrow> 'v OngoingRpc \<Rightarrow> ('v, 'e) ClientPort \<Rightarrow> bool" where
  "pendingInFlight callId r s =
     (map_of (ongoingRpcs s) callId = None \<or> promises s ! promise r = Pending)"

section \<open>Properties\<close>

subsection \<open>Fields that the building blocks leave alone\<close>

lemma emit_fields [simp]:
  "openChannels (emit e s) = openChannels s"
  "ongoingRpcs (emit e s) = ongoingRpcs s"
  "openSignalSubscriptions (emit e s) = openSignalSubscriptions s"
  "openWritableSignalSubscriptions (emit e s) = openWritableSignalSubscriptions s"
  "openCommunicationsCount (emit e s) = openCommunicationsCount s"
  "nextChannelId (emit e s) = nextChannelId s"
  "nextSubscribeId (emit e s) = nextSubscribeId s"
  "nextWritableSubscribeId (emit e s) = nextWritableSubscribeId s"
  "producedCommunicationWarningsCount (emit e s) = producedCommunicationWarningsCount s"
  "promises (emit e s) = promises s"
  "channels (emit e s) = channels s"
  "signals (emit e s) = signals s"
  "events (emit e s) = events s @ [e]"
  by (simp_all add: emit_def)

lemma transportSend_fields [simp]:
  "openChannels (transportSend m s) = openChannels s"
  "ongoingRpcs (transportSend m s) = ongoingRpcs s"
  "openSignalSubscriptions (transportSend m s) = openSignalSubscriptions s"
  "openWritableSignalSubscriptions (transportSend m s) = openWritableSignalSubscriptions s"
  "openCommunicationsCount (transportSend m s) = openCommunicationsCount s"
  "nextChannelId (transportSend m s) = nextChannelId s"
  "nextSubscribeId (transportSend m s) = nextSubscribeId s"
  "nextWritableSubscribeId (transportSend m s) = nextWritableSubscribeId s"
  "producedCommunicationWarningsCount (transportSend m s) = producedCommunicationWarningsCount s"
  "promises (transportSend m s) = promises s"
  "channels (transportSend m s) = channels s"
  "signals (transportSend m s) = signals s"
  "events (transportSend m s) = events s @ [Send m]"
  by (simp_all add: transportSend_def)

lemma communicationWarning_fields [simp]:
  "openChannels (communicationWarning w s) = openChannels s"
  "ongoingRpcs (communicationWarning w s) = ongoingRpcs s"
  "openSignalSubscriptions (communicationWarning w s) = openSignalSubscriptions s"
  "openWritableSignalSubscriptions (communicationWarning w s) = openWritableSignalSubscriptions s"
  "openCommunicationsCount (communicationWarning w s) = openCommunicationsCount s"
  "nextChannelId (communicationWarning w s) = nextChannelId s"
  "nextSubscribeId (communicationWarning w s) = nextSubscribeId s"
  "nextWritableSubscribeId (communicationWarning w s) = nextWritableSubscribeId s"
  "promises (communicationWarning w s) = promises s"
  "channels (communicationWarning w s) = channels s"
  "signals (communicationWarning w s) = signals s"
  by (simp_all add: communicationWarning_def Let_def)

lemma communicationWarning_events:
  "events (communicationWarning w s) =
     events s @
       (if producedCommunicationWarningsCount s \<ge> 5 then []
        else [WarnText (ProducedCommunicationWarning w), Send (Out_communicationWarning w)]
             @ (if producedCommunicationWarningsCount s = 4
                then [ErrorText WarningsSuppressed] else []))"
  by (simp add: communicationWarning_def Let_def)

lemma communicationWarning_count:
  "producedCommunicationWarningsCount (communicationWarning w s) =
     (if producedCommunicationWarningsCount s \<ge> 5 then producedCommunicationWarningsCount s
      else producedCommunicationWarningsCount s + 1)"
  by (simp add: communicationWarning_def Let_def)

lemma updateOpenCommunicationsCount_fields [simp]:
  "openChannels (updateOpenCommunicationsCount s) = openChannels s"
  "ongoingRpcs (updateOpenCommunicationsCount s) = ongoingRpcs s"
  "openSignalSubscriptions (updateOpenCommunicationsCount s) = openSignalSubscriptions s"
  "openWritableSignalSubscriptions (updateOpenCommunicationsCount s) = openWritableSignalSubscriptions s"
  "nextChannelId (updateOpenCommunicationsCount s) = nextChannelId s"
  "nextSubscribeId (updateOpenCommunicationsCount s) = nextSubscribeId s"
  "nextWritableSubscribeId (updateOpenCommunicationsCount s) = nextWritableSubscribeId s"
  "producedCommunicationWarningsCount (updateOpenCommunicationsCount s) = producedCommunicationWarningsCount s"
  "promises (updateOpenCommunicationsCount s) = promises s"
  "channels (updateOpenCommunicationsCount s) = channels s"
  "signals (updateOpenCommunicationsCount s) = signals s"
  "openCommunicationsCount (updateOpenCommunicationsCount s) =
     length (openChannels s) + length (ongoingRpcs s) + length (openSignalSubscriptions s)
     + length (openWritableSignalSubscriptions s)"
  by (simp_all add: updateOpenCommunicationsCount_def Let_def)

lemma updateOpenCommunicationsCount_events:
  "events (updateOpenCommunicationsCount s) =
     events s @
       (let n = length (openChannels s) + length (ongoingRpcs s)
                + length (openSignalSubscriptions s)
                + length (openWritableSignalSubscriptions s)
        in if n = 0 \<and> openCommunicationsCount s > 0 then [OnHavingNoOpenCommunication]
           else if n = 1 \<and> openCommunicationsCount s = 0
           then [OnHavingOneOrMoreOpenCommunication] else [])"
  by (simp add: updateOpenCommunicationsCount_def Let_def)

lemma settle_fields [simp]:
  "openChannels (settle p r s) = openChannels s"
  "ongoingRpcs (settle p r s) = ongoingRpcs s"
  "openSignalSubscriptions (settle p r s) = openSignalSubscriptions s"
  "openWritableSignalSubscriptions (settle p r s) = openWritableSignalSubscriptions s"
  "openCommunicationsCount (settle p r s) = openCommunicationsCount s"
  "nextChannelId (settle p r s) = nextChannelId s"
  "nextSubscribeId (settle p r s) = nextSubscribeId s"
  "nextWritableSubscribeId (settle p r s) = nextWritableSubscribeId s"
  "producedCommunicationWarningsCount (settle p r s) = producedCommunicationWarningsCount s"
  "channels (settle p r s) = channels s"
  "signals (settle p r s) = signals s"
  "events (settle p r s) = events s"
  "length (promises (settle p r s)) = length (promises s)"
  by (simp_all add: settle_def)

subsection \<open>Two ports reached by a run\<close>

lemmas demo_defs = demoEnv_def demoInterface_def getRpcEndpoint_def getChannelEndpoint_def
  getSignalEndpoint_def getWritableSignalEndpoint_def parse_def safeParse_def
  stackOrCurrent_def newSignalObject_def

lemmas port_defs = run_def newClientPort_def orElse_def callRpc_def callRpcBody_def async_def rejectedPromise_def createChannel_def
  createSignal_def createWritableSignal_def attachObserver_def detachObserver_def
  subscribeUpstream_def runTeardown_def signalSubscribeUpstream_def signalTeardown_def
  writableSignalSubscribeUpstream_def writableSignalTeardown_def setObservers_def
  setCurrentSubscribeId_def makePromise_def updateOpenCommunicationsCount_def
  transportSend_def emit_def Let_def

lemma demo_rpc_state:
  "run demoEnv [CallRpc ''add'' (JObj [(''a'', JNum 2), (''b'', JNum 3)]) None] =
     \<lparr> openChannels = [],
       ongoingRpcs = [(0, \<lparr>rpcEndpoint = \<lparr>rpcName = ''add'', parameter = addParameterSchema,
                      returns = numberSchema\<rparr>, rpcStack = ''at user code'', promise = 0\<rparr>)],
       openSignalSubscriptions = [],
       openWritableSignalSubscriptions = [], openCommunicationsCount = 1,
       nextChannelId = 1, nextSubscribeId = 0, nextWritableSubscribeId = 0,
       producedCommunicationWarningsCount = 0,
       promises = [Pending], channels = [], signals = [],
       events = [Send (Out_rpcCall ''add'' 0 (JObj [(''a'', JNum 2), (''b'', JNum 3)])),
                 OnHavingOneOrMoreOpenCommunication] \<rparr>"
  by (simp add: port_defs demo_defs)

lemma demo_signal_state:
  "run demoEnv [CreateSignal ''counter'' (JStr ''x'') None, AttachObserver 0,
       OnMessage (In_signalUpdate 0 [\<lparr>op = Replace, path = [], patchValue = Some (JObj [(''n'', JNum 0)])\<rparr>] [])] =
     \<lparr> openChannels = [],
       ongoingRpcs = [],
       openSignalSubscriptions = [(0, demoSub)],
       openWritableSignalSubscriptions = [], openCommunicationsCount = 1,
       nextChannelId = 0, nextSubscribeId = 1, nextWritableSubscribeId = 0,
       producedCommunicationWarningsCount = 0,
       promises = [], channels = [],
       signals = [\<lparr>sigEndpointName = ''counter'',
                   sigEndpoint = \<lparr>signalName = ''counter'', creationParameter = stringSchema,
                          signalData = counterSchema\<rparr>,
                   sigCreationParameter = JStr ''x'', sigStack = ''at user code'',
                   sigWritable = False, currentSubscribeId = None,
                   sigValue = JObj [(''n'', JNum 0)], observers = 1, teardown = Some 0\<rparr>],
       events = [Send (Out_signalSubscribe ''counter'' 0 (JStr ''x'')),
                 OnHavingOneOrMoreOpenCommunication,
                 SignalSetValue 0 (JObj [(''n'', JNum 0)]) []] \<rparr>"
  by (simp add: port_defs demo_defs demoSub_def receivedSignalUpdate_def getValue_def setValue_def)


subsection \<open>Calls that are refused\<close>

text \<open>
  Claim C8 says that \<^verbatim>\<open>callRpc\<close> fails synchronously when the parameter fails the
  endpoint's parameter schema. \<^verbatim>\<open>callRpc\<close> is an async function: with the parameter
  \<^verbatim>\<open>{a: "x", b: 3}\<close> for the endpoint \<^verbatim>\<open>add\<close> it does not raise zod's error to its
  caller, it returns a promise that is rejected with it. \<^verbatim>\<open>createChannel\<close>, which is
  not async, does raise zod's error to its caller.
\<close>

theorem callRpc_raises_synchronously_counterexample:
  "getRpcEndpoint (backendInterface demoEnv) ''add''
     = Some \<lparr>rpcName = ''add'', parameter = addParameterSchema, returns = numberSchema\<rparr>
   \<and> safeParse addParameterSchema (JObj [(''a'', JStr ''x''), (''b'', JNum 3)]) = None
   \<and> callRpc demoEnv ''add'' (JObj [(''a'', JStr ''x''), (''b'', JNum 3)]) None newClientPort
       \<noteq> Inl ZodError
   \<and> callRpc demoEnv ''add'' (JObj [(''a'', JStr ''x''), (''b'', JNum 3)]) None newClientPort
       = Inr (0, newClientPort\<lparr>promises := [RejectedThrown ZodError]\<rparr>)
   \<and> createChannel demoEnv ''chat'' (JNum 1) None newClientPort = Inl ZodError"
  by (simp add: demo_defs callRpc_def callRpcBody_def async_def rejectedPromise_def
      createChannel_def newClientPort_def)

text \<open>
  Claim C8, as the code has it. When \<^verbatim>\<open>callRpc\<close> is given an endpoint name the backend
  interface does not have, or a parameter that fails the endpoint's parameter schema, it
  does not raise to its caller: it returns a new promise that is already rejected with
  the no-such-endpoint error, or with zod's error. No frame is sent, no record is
  installed, no identifier is taken and the count of open communications is unchanged.
  No call of \<^verbatim>\<open>callRpc\<close> raises to its caller.
\<close>

theorem callRpc_invalid_input:
  "(getRpcEndpoint (backendInterface env) endpointName = None \<longrightarrow>
      (\<exists>p s'. callRpc env endpointName param stack s = Inr (p, s')
         \<and> p = length (promises s)
         \<and> promises s'
             = promises s
               @ [RejectedThrown (Error (''No Rpc endpoint with name '' @ endpointName))]
         \<and> events s' = events s
         \<and> ongoingRpcs s' = ongoingRpcs s
         \<and> openCommunicationsCount s' = openCommunicationsCount s
         \<and> nextChannelId s' = nextChannelId s))
   \<and> (\<forall>endpoint. getRpcEndpoint (backendInterface env) endpointName = Some endpoint
          \<and> safeParse (parameter endpoint) param = None \<longrightarrow>
      (\<exists>p s'. callRpc env endpointName param stack s = Inr (p, s')
         \<and> p = length (promises s)
         \<and> promises s' = promises s @ [RejectedThrown ZodError]
         \<and> events s' = events s
         \<and> ongoingRpcs s' = ongoingRpcs s
         \<and> openCommunicationsCount s' = openCommunicationsCount s
         \<and> nextChannelId s' = nextChannelId s))
   \<and> (\<forall>err. callRpc env endpointName param stack s \<noteq> Inl err)"
  by (auto simp: callRpc_def callRpcBody_def async_def rejectedPromise_def parse_def
      safeParse_def split: option.splits sum.splits)

theorem callRpc_invalid_input_witness:
  "(\<exists>s'. callRpc demoEnv ''nope'' (JObj [(''a'', JNum 2), (''b'', JNum 3)]) None newClientPort
        = Inr (0, s')
      \<and> promises s' = [RejectedThrown (Error ''No Rpc endpoint with name nope'')]
      \<and> events s' = [] \<and> ongoingRpcs s' = [] \<and> openCommunicationsCount s' = 0)
   \<and> (\<exists>s'. callRpc demoEnv ''add'' (JObj [(''a'', JStr ''x''), (''b'', JNum 3)]) None
          newClientPort = Inr (0, s')
      \<and> promises s' = [RejectedThrown ZodError]
      \<and> events s' = [] \<and> ongoingRpcs s' = [] \<and> openCommunicationsCount s' = 0)"
proof -
  have a: "getRpcEndpoint (backendInterface demoEnv) ''nope'' = None"
    by (simp add: demo_defs)
  have b: "getRpcEndpoint (backendInterface demoEnv) ''add''
             = Some \<lparr>rpcName = ''add'', parameter = addParameterSchema, returns = numberSchema\<rparr>"
    by (simp add: demo_defs)
  have c: "safeParse (parameter \<lparr>rpcName = ''add'', parameter = addParameterSchema,
              returns = numberSchema\<rparr>) (JObj [(''a'', JStr ''x''), (''b'', JNum 3)]) = None"
    by (simp add: safeParse_def)
  have n: "promises (newClientPort :: (json, demoError) ClientPort) = []"
    "events (newClientPort :: (json, demoError) ClientPort) = []"
    "ongoingRpcs (newClientPort :: (json, demoError) ClientPort) = []"
    "openCommunicationsCount (newClientPort :: (json, demoError) ClientPort) = 0"
    by (simp_all add: newClientPort_def)
  note t1 = callRpc_invalid_input [of demoEnv "''nope''"
      "JObj [(''a'', JNum 2), (''b'', JNum 3)]" None newClientPort]
  note t2 = callRpc_invalid_input [of demoEnv "''add''"
      "JObj [(''a'', JStr ''x''), (''b'', JNum 3)]" None newClientPort]
  from t1 a have 1: "\<exists>s'. callRpc demoEnv ''nope'' (JObj [(''a'', JNum 2), (''b'', JNum 3)])
        None newClientPort = Inr (0, s')
      \<and> promises s' = [RejectedThrown (Error ''No Rpc endpoint with name nope'')]
      \<and> events s' = [] \<and> ongoingRpcs s' = [] \<and> openCommunicationsCount s' = 0"
    unfolding n by auto
  from t2 b c have 2: "\<exists>s'. callRpc demoEnv ''add'' (JObj [(''a'', JStr ''x''), (''b'', JNum 3)])
        None newClientPort = Inr (0, s')
      \<and> promises s' = [RejectedThrown ZodError]
      \<and> events s' = [] \<and> ongoingRpcs s' = [] \<and> openCommunicationsCount s' = 0"
    unfolding n by auto
  from 1 2 show ?thesis by blast
qed

subsection \<open>An rpc result that fails the returns schema\<close>

text \<open>
  Claim C10. When an inbound \<^verbatim>\<open>rpcResult\<close> names a call that is in the table of
  ongoing rpcs and its result fails the endpoint's returns schema, the port calls
  \<^verbatim>\<open>communicationWarning\<close> and drops the frame: the record stays in the table, no
  promise is settled, and the count of open communications is unchanged.
\<close>

theorem rpcResult_invalid_result_keeps_rpc:
  assumes "map_of (ongoingRpcs s) callId = Some ongoingRpc"
    and "safeParse (returns (rpcEndpoint ongoingRpc)) result = None"
  shows "receivedMessage env (In_rpcResult callId result) s
           = Inr (communicationWarning
                    (ReceivedInvalidResultForRpc (rpcName (rpcEndpoint ongoingRpc)) result) s)
         \<and> ongoingRpcs (exec env s (OnMessage (In_rpcResult callId result))) = ongoingRpcs s
         \<and> promises (exec env s (OnMessage (In_rpcResult callId result))) = promises s
         \<and> openCommunicationsCount (exec env s (OnMessage (In_rpcResult callId result)))
             = openCommunicationsCount s"
  using assms by (simp add: receivedRpcResult_def orElse_def)

theorem rpcResult_invalid_result_keeps_rpc_witness:
  "events (exec demoEnv
       (run demoEnv [CallRpc ''add'' (JObj [(''a'', JNum 2), (''b'', JNum 3)]) None])
       (OnMessage (In_rpcResult 0 (JStr ''five''))))
     = [Send (Out_rpcCall ''add'' 0 (JObj [(''a'', JNum 2), (''b'', JNum 3)])),
        OnHavingOneOrMoreOpenCommunication,
        WarnText (ProducedCommunicationWarning (ReceivedInvalidResultForRpc ''add'' (JStr ''five''))),
        Send (Out_communicationWarning (ReceivedInvalidResultForRpc ''add'' (JStr ''five'')))]
   \<and> map fst (ongoingRpcs (exec demoEnv
       (run demoEnv [CallRpc ''add'' (JObj [(''a'', JNum 2), (''b'', JNum 3)]) None])
       (OnMessage (In_rpcResult 0 (JStr ''five''))))) = [0]
   \<and> promises (exec demoEnv
       (run demoEnv [CallRpc ''add'' (JObj [(''a'', JNum 2), (''b'', JNum 3)]) None])
       (OnMessage (In_rpcResult 0 (JStr ''five'')))) = [Pending]
   \<and> openCommunicationsCount (exec demoEnv
       (run demoEnv [CallRpc ''add'' (JObj [(''a'', JNum 2), (''b'', JNum 3)]) None])
       (OnMessage (In_rpcResult 0 (JStr ''five'')))) = 1"
proof -
  let ?s = "run demoEnv [CallRpc ''add'' (JObj [(''a'', JNum 2), (''b'', JNum 3)]) None]"
  let ?r = "\<lparr>rpcEndpoint = \<lparr>rpcName = ''add'', parameter = addParameterSchema,
                      returns = numberSchema\<rparr>, rpcStack = ''at user code'', promise = 0\<rparr>"
  have a: "map_of (ongoingRpcs ?s) 0 = Some ?r"
    by (simp add: demo_rpc_state)
  have b: "safeParse (returns (rpcEndpoint ?r)) (JStr ''five'') = None"
    by (simp add: safeParse_def)
  from rpcResult_invalid_result_keeps_rpc [OF a b, of demoEnv]
  show ?thesis
    by (simp add: orElse_def communicationWarning_events) (simp add: demo_rpc_state)
qed

subsection \<open>Frames that name an unknown id\<close>

text \<open>
  Claim C6. An inbound \<^verbatim>\<open>channelSend\<close>, \<^verbatim>\<open>channelAck\<close>, \<^verbatim>\<open>channelClose\<close>,
  \<^verbatim>\<open>channelError\<close>, \<^verbatim>\<open>rpcResult\<close>, \<^verbatim>\<open>rpcError\<close>, \<^verbatim>\<open>signalUpdate\<close>,
  \<^verbatim>\<open>signalError\<close>, \<^verbatim>\<open>writableSignalUpdate\<close> or \<^verbatim>\<open>writableSignalError\<close> whose id
  is not in the table its handler looks it up in does not raise; the port does one call of
  \<^verbatim>\<open>communicationWarning\<close> and nothing else. Such a call changes none of the four
  tables, no promise, channel or signal object and not the count of open communications,
  and it appends at most one warning frame (with its log lines) and no call of a sink.
\<close>

theorem unknown_id_frames_dropped:
  "(map_of (openChannels s) i = None \<longrightarrow>
      receivedMessage env (In_channelSend i m) s
        = Inr (communicationWarning (ReceivedForUnknown channelSend i) s)
      \<and> receivedMessage env (In_channelAck i a) s
        = Inr (communicationWarning (ReceivedForUnknown channelAck i) s)
      \<and> receivedMessage env (In_channelClose i) s
        = Inr (communicationWarning (ReceivedForUnknown channelClose i) s)
      \<and> receivedMessage env (In_channelError i m) s
        = Inr (communicationWarning (ReceivedForUnknown channelError i) s))
   \<and> (map_of (ongoingRpcs s) i = None \<longrightarrow>
      receivedMessage env (In_rpcResult i m) s
        = Inr (communicationWarning (ReceivedForUnknown rpcResult i) s)
      \<and> receivedMessage env (In_rpcError i m) s
        = Inr (communicationWarning (ReceivedForUnknown rpcError i) s))
   \<and> (map_of (openSignalSubscriptions s) i = None \<longrightarrow>
      receivedMessage env (In_signalUpdate i ps ts) s
        = Inr (communicationWarning (ReceivedForUnknown signalUpdate i) s)
      \<and> receivedMessage env (In_signalError i m) s
        = Inr (communicationWarning (ReceivedForUnknown signalError i) s))
   \<and> (map_of (openWritableSignalSubscriptions s) i = None \<longrightarrow>
      receivedMessage env (In_writableSignalUpdate i ps ts) s
        = Inr (communicationWarning (ReceivedForUnknown writableSignalUpdate i) s)
      \<and> receivedMessage env (In_writableSignalError i m) s
        = Inr (communicationWarning (ReceivedForUnknown writableSignalError i) s))
   \<and> openChannels (communicationWarning w s) = openChannels s
   \<and> ongoingRpcs (communicationWarning w s) = ongoingRpcs s
   \<and> openSignalSubscriptions (communicationWarning w s) = openSignalSubscriptions s
   \<and> openWritableSignalSubscriptions (communicationWarning w s)
       = openWritableSignalSubscriptions s
   \<and> openCommunicationsCount (communicationWarning w s) = openCommunicationsCount s
   \<and> promises (communicationWarning w s) = promises s
   \<and> channels (communicationWarning w s) = channels s
   \<and> signals (communicationWarning w s) = signals s
   \<and> events (communicationWarning w s) \<in>
       {events s,
        events s @ [WarnText (ProducedCommunicationWarning w),
                    Send (Out_communicationWarning w)],
        events s @ [WarnText (ProducedCommunicationWarning w),
                    Send (Out_communicationWarning w), ErrorText WarningsSuppressed]}"
  by (simp add: receivedChannelSend_def receivedChannelAck_def receivedChannelClose_def
      receivedChannelError_def receivedRpcResult_def receivedRpcError_def
      receivedSignalUpdate_def receivedSignalError_def receivedWritableSignalUpdate_def
      receivedWritableSignalError_def communicationWarning_events)

theorem unknown_id_frames_dropped_witness:
  "receivedMessage demoEnv (In_signalUpdate 42 [] []) newClientPort
     = Inr (communicationWarning (ReceivedForUnknown signalUpdate 42) newClientPort)
   \<and> events (communicationWarning (ReceivedForUnknown signalUpdate 42)
        (newClientPort :: (json, demoError) ClientPort))
     = [WarnText (ProducedCommunicationWarning (ReceivedForUnknown signalUpdate 42)),
        Send (Out_communicationWarning (ReceivedForUnknown signalUpdate 42))]
   \<and> signals (communicationWarning (ReceivedForUnknown signalUpdate 42)
        (newClientPort :: (json, demoError) ClientPort)) = []
   \<and> receivedMessage demoEnv (In_rpcResult 7 (JNum 5)) newClientPort
     = Inr (communicationWarning (ReceivedForUnknown rpcResult 7) newClientPort)
   \<and> receivedMessage demoEnv (In_channelClose 3) newClientPort
     = Inr (communicationWarning (ReceivedForUnknown channelClose 3) newClientPort)
   \<and> receivedMessage demoEnv (In_writableSignalError 1 JNull) newClientPort
     = Inr (communicationWarning (ReceivedForUnknown writableSignalError 1) newClientPort)"
proof -
  have e: "map_of (openChannels (newClientPort :: (json, demoError) ClientPort)) i = None"
      "map_of (ongoingRpcs (newClientPort :: (json, demoError) ClientPort)) i = None"
      "map_of (openSignalSubscriptions (newClientPort :: (json, demoError) ClientPort)) i = None"
      "map_of (openWritableSignalSubscriptions (newClientPort :: (json, demoError) ClientPort)) i = None"
    for i :: nat
    by (simp_all add: newClientPort_def)
  have ev: "events (communicationWarning (ReceivedForUnknown signalUpdate 42)
        (newClientPort :: (json, demoError) ClientPort))
     = [WarnText (ProducedCommunicationWarning (ReceivedForUnknown signalUpdate 42)),
        Send (Out_communicationWarning (ReceivedForUnknown signalUpdate 42))]"
    by (simp add: communicationWarning_events) (simp add: newClientPort_def)
  have sg: "signals (newClientPort :: (json, demoError) ClientPort) = []"
    by (simp add: newClientPort_def)
  from unknown_id_frames_dropped [of newClientPort 42 demoEnv JNull 0 "[]" "[]"
      "ReceivedForUnknown signalUpdate 42"]
    unknown_id_frames_dropped [of newClientPort 7 demoEnv "JNum 5" 0 "[]" "[]"
      "ReceivedForUnknown signalUpdate 42"]
    unknown_id_frames_dropped [of newClientPort 3 demoEnv JNull 0 "[]" "[]"
      "ReceivedForUnknown signalUpdate 42"]
    unknown_id_frames_dropped [of newClientPort 1 demoEnv JNull 0 "[]" "[]"
      "ReceivedForUnknown signalUpdate 42"]
  show ?thesis using e ev sg by simp
qed

subsection \<open>Updates of a subscribed signal\<close>

text \<open>
  Claim C5 says that the value delivered to the subscription is exactly the patched
  value. The port delivers \<^verbatim>\<open>parseResult.data\<close>: the signal \<^verbatim>\<open>counter\<close> holds
  \<^verbatim>\<open>{n: 0}\<close>, a patch adds the key \<^verbatim>\<open>extra\<close>, the schema accepts the patched value
  and returns it without the undeclared key, and the listener gets \<^verbatim>\<open>{n: 0}\<close>.
\<close>

theorem signalUpdate_delivers_patched_value_counterexample:
  "map_of (openSignalSubscriptions
       (run demoEnv [CreateSignal ''counter'' (JStr ''x'') None, AttachObserver 0,
          OnMessage (In_signalUpdate 0
            [\<lparr>op = Replace, path = [], patchValue = Some (JObj [(''n'', JNum 0)])\<rparr>] [])])) 0
     = Some demoSub
   \<and> applyPatches demoEnv
        (getValue demoSub
          (run demoEnv [CreateSignal ''counter'' (JStr ''x'') None, AttachObserver 0,
             OnMessage (In_signalUpdate 0
               [\<lparr>op = Replace, path = [], patchValue = Some (JObj [(''n'', JNum 0)])\<rparr>] [])]))
        [\<lparr>op = Add, path = [Key ''extra''], patchValue = Some (JNum 1)\<rparr>]
     = Some (JObj [(''n'', JNum 0), (''extra'', JNum 1)])
   \<and> safeParse (signalData (signalEndpoint demoSub))
        (JObj [(''n'', JNum 0), (''extra'', JNum 1)])
     = Some (JObj [(''n'', JNum 0)])
   \<and> receivedMessage demoEnv
        (In_signalUpdate 0 [\<lparr>op = Add, path = [Key ''extra''], patchValue = Some (JNum 1)\<rparr>]
           [TagString ''t''])
        (run demoEnv [CreateSignal ''counter'' (JStr ''x'') None, AttachObserver 0,
           OnMessage (In_signalUpdate 0
             [\<lparr>op = Replace, path = [], patchValue = Some (JObj [(''n'', JNum 0)])\<rparr>] [])])
     = Inr (setValue demoSub (JObj [(''n'', JNum 0)]) [TagString ''t'']
        (run demoEnv [CreateSignal ''counter'' (JStr ''x'') None, AttachObserver 0,
           OnMessage (In_signalUpdate 0
             [\<lparr>op = Replace, path = [], patchValue = Some (JObj [(''n'', JNum 0)])\<rparr>] [])]))
   \<and> receivedMessage demoEnv
        (In_signalUpdate 0 [\<lparr>op = Add, path = [Key ''extra''], patchValue = Some (JNum 1)\<rparr>]
           [TagString ''t''])
        (run demoEnv [CreateSignal ''counter'' (JStr ''x'') None, AttachObserver 0,
           OnMessage (In_signalUpdate 0
             [\<lparr>op = Replace, path = [], patchValue = Some (JObj [(''n'', JNum 0)])\<rparr>] [])])
     \<noteq> Inr (setValue demoSub (JObj [(''n'', JNum 0), (''extra'', JNum 1)]) [TagString ''t'']
        (run demoEnv [CreateSignal ''counter'' (JStr ''x'') None, AttachObserver 0,
           OnMessage (In_signalUpdate 0
             [\<lparr>op = Replace, path = [], patchValue = Some (JObj [(''n'', JNum 0)])\<rparr>] [])]))"
  unfolding demo_signal_state
  by (simp add: receivedSignalUpdate_def getValue_def setValue_def emit_def safeParse_def
      demoSub_def demoEnv_def)

text \<open>
  Claim C5, as the code has it. For an inbound \<^verbatim>\<open>signalUpdate\<close> whose id is in the
  table of signal subscriptions, the port reads the current value through the record's
  getter and applies the patches to it. When the patched value fails the endpoint's
  \<^verbatim>\<open>signalData\<close> schema, the port calls \<^verbatim>\<open>communicationWarning\<close>, no signal object
  changes and the listener is not called. When it passes, the port calls the record's
  listener with the value the schema returns for the patched value and with the frame's
  tags.
\<close>

theorem signalUpdate_known_subscription:
  assumes "map_of (openSignalSubscriptions s) subscribeId = Some sub"
    and "applyPatches env (getValue sub s) patches = Some afterValue"
  shows "(safeParse (signalData (signalEndpoint sub)) afterValue = None \<longrightarrow>
            receivedMessage env (In_signalUpdate subscribeId patches tags) s
              = Inr (communicationWarning
                       (ReceivedInvalidSignalPatchData subscribeId patches
                          (getValue sub s) afterValue) s)
            \<and> signals (exec env s (OnMessage (In_signalUpdate subscribeId patches tags)))
                = signals s
            \<and> filter (\<lambda>e. case e of SignalSetValue h v ts \<Rightarrow> True | _ \<Rightarrow> False)
                 (events (exec env s (OnMessage (In_signalUpdate subscribeId patches tags))))
                = filter (\<lambda>e. case e of SignalSetValue h v ts \<Rightarrow> True | _ \<Rightarrow> False) (events s))
         \<and> (\<forall>data. safeParse (signalData (signalEndpoint sub)) afterValue = Some data \<longrightarrow>
            receivedMessage env (In_signalUpdate subscribeId patches tags) s
              = Inr (setValue sub data tags s)
            \<and> events (exec env s (OnMessage (In_signalUpdate subscribeId patches tags)))
                = events s @ [SignalSetValue (signal sub) data tags])"
  using assms
  by (simp add: receivedSignalUpdate_def orElse_def setValue_def communicationWarning_events)

theorem signalUpdate_known_subscription_witness:
  "events (exec demoEnv
       (run demoEnv [CreateSignal ''counter'' (JStr ''x'') None, AttachObserver 0,
          OnMessage (In_signalUpdate 0
            [\<lparr>op = Replace, path = [], patchValue = Some (JObj [(''n'', JNum 0)])\<rparr>] [])])
       (OnMessage (In_signalUpdate 0
          [\<lparr>op = Replace, path = [Key ''n''], patchValue = Some (JNum 1)\<rparr>] [TagNumber 7])))
     = [Send (Out_signalSubscribe ''counter'' 0 (JStr ''x'')),
        OnHavingOneOrMoreOpenCommunication,
        SignalSetValue 0 (JObj [(''n'', JNum 0)]) [],
        SignalSetValue 0 (JObj [(''n'', JNum 1)]) [TagNumber 7]]
   \<and> receivedMessage demoEnv
       (In_signalUpdate 0 [\<lparr>op = Remove, path = [Key ''n''], patchValue = None\<rparr>] [])
       (run demoEnv [CreateSignal ''counter'' (JStr ''x'') None, AttachObserver 0,
          OnMessage (In_signalUpdate 0
            [\<lparr>op = Replace, path = [], patchValue = Some (JObj [(''n'', JNum 0)])\<rparr>] [])])
     = Inr (communicationWarning
              (ReceivedInvalidSignalPatchData 0
                 [\<lparr>op = Remove, path = [Key ''n''], patchValue = None\<rparr>]
                 (JObj [(''n'', JNum 0)]) (JObj []))
       (run demoEnv [CreateSignal ''counter'' (JStr ''x'') None, AttachObserver 0,
          OnMessage (In_signalUpdate 0
            [\<lparr>op = Replace, path = [], patchValue = Some (JObj [(''n'', JNum 0)])\<rparr>] [])]))"
proof -
  let ?s = "run demoEnv [CreateSignal ''counter'' (JStr ''x'') None, AttachObserver 0,
          OnMessage (In_signalUpdate 0
            [\<lparr>op = Replace, path = [], patchValue = Some (JObj [(''n'', JNum 0)])\<rparr>] [])]"
  have k: "map_of (openSignalSubscriptions ?s) 0 = Some demoSub"
    by (simp add: demo_signal_state)
  have g: "getValue demoSub ?s = JObj [(''n'', JNum 0)]"
    by (simp add: demo_signal_state getValue_def demoSub_def)
  have a1: "applyPatches demoEnv (getValue demoSub ?s)
              [\<lparr>op = Replace, path = [Key ''n''], patchValue = Some (JNum 1)\<rparr>]
            = Some (JObj [(''n'', JNum 1)])"
    by (simp add: g) (simp add: demoEnv_def)
  have a2: "applyPatches demoEnv (getValue demoSub ?s)
              [\<lparr>op = Remove, path = [Key ''n''], patchValue = None\<rparr>]
            = Some (JObj [])"
    by (simp add: g) (simp add: demoEnv_def)
  have p1: "safeParse (signalData (signalEndpoint demoSub)) (JObj [(''n'', JNum 1)])
              = Some (JObj [(''n'', JNum 1)])"
    by (simp add: safeParse_def demoSub_def)
  have p2: "safeParse (signalData (signalEndpoint demoSub)) (JObj []) = None"
    by (simp add: safeParse_def demoSub_def)
  have ev: "events ?s = [Send (Out_signalSubscribe ''counter'' 0 (JStr ''x'')),
        OnHavingOneOrMoreOpenCommunication, SignalSetValue 0 (JObj [(''n'', JNum 0)]) []]"
    by (simp add: demo_signal_state)
  have sg: "signal demoSub = 0" by (simp add: demoSub_def)
  from signalUpdate_known_subscription [OF k a1, of "[TagNumber 7]"]
    signalUpdate_known_subscription [OF k a2, of "[]"]
  show ?thesis using p1 p2 ev g sg by (simp add: orElse_def setValue_def)
qed

subsection \<open>A transport error\<close>

text \<open>
  Claim C1 at the scenario S6 of the specification: two rpcs in flight (call ids 0 and 1),
  one open channel (channel id 2), then the transport calls \<^verbatim>\<open>onError\<close> with \<open>E\<close>.
  Both promises are rejected with \<open>E\<close> and the channel's error sink is called with
  \<open>E\<close>. The three records stay in their tables, the count of open communications stays
  3, and no edge is reported to the transport: \<^verbatim>\<open>errored\<close> neither deletes a record
  nor calls \<^verbatim>\<open>updateOpenCommunicationsCount\<close>, which the handlers of \<^verbatim>\<open>rpcError\<close>
  and \<^verbatim>\<open>channelError\<close> both do.
\<close>

theorem transport_error_keeps_records:
  "promises (run demoEnv
       [CallRpc ''add'' (JObj [(''a'', JNum 2), (''b'', JNum 3)]) None,
        CallRpc ''add'' (JObj [(''a'', JNum 4), (''b'', JNum 5)]) None,
        CreateChannel ''chat'' (JStr ''hi'') None,
        OnError (TransportFailure ''E'')])
     = [Rejected (TransportFailure ''E''), Rejected (TransportFailure ''E'')]
   \<and> events (run demoEnv
       [CallRpc ''add'' (JObj [(''a'', JNum 2), (''b'', JNum 3)]) None,
        CallRpc ''add'' (JObj [(''a'', JNum 4), (''b'', JNum 5)]) None,
        CreateChannel ''chat'' (JStr ''hi'') None,
        OnError (TransportFailure ''E'')])
     = [Send (Out_rpcCall ''add'' 0 (JObj [(''a'', JNum 2), (''b'', JNum 3)])),
        OnHavingOneOrMoreOpenCommunication,
        Send (Out_rpcCall ''add'' 1 (JObj [(''a'', JNum 4), (''b'', JNum 5)])),
        Send (Out_channelCreate ''chat'' 2 (JStr ''hi'')),
        ChannelErrored 0 (TransportFailure ''E'')]
   \<and> map fst (ongoingRpcs (run demoEnv
       [CallRpc ''add'' (JObj [(''a'', JNum 2), (''b'', JNum 3)]) None,
        CallRpc ''add'' (JObj [(''a'', JNum 4), (''b'', JNum 5)]) None,
        CreateChannel ''chat'' (JStr ''hi'') None,
        OnError (TransportFailure ''E'')])) = [0, 1]
   \<and> map fst (openChannels (run demoEnv
       [CallRpc ''add'' (JObj [(''a'', JNum 2), (''b'', JNum 3)]) None,
        CallRpc ''add'' (JObj [(''a'', JNum 4), (''b'', JNum 5)]) None,
        CreateChannel ''chat'' (JStr ''hi'') None,
        OnError (TransportFailure ''E'')])) = [2]
   \<and> openCommunicationsCount (run demoEnv
       [CallRpc ''add'' (JObj [(''a'', JNum 2), (''b'', JNum 3)]) None,
        CallRpc ''add'' (JObj [(''a'', JNum 4), (''b'', JNum 5)]) None,
        CreateChannel ''chat'' (JStr ''hi'') None,
        OnError (TransportFailure ''E'')]) = 3"
  by (simp add: port_defs demo_defs errored_def reject_def settle_def)

subsection \<open>The last observer of a signal detaches\<close>

text \<open>
  Claim C4 at a signal with one observer that detaches. The teardown closure of
  \<^verbatim>\<open>createSignal\<close> sends \<^verbatim>\<open>signalUnsubscribe\<close> and nothing else: the record of
  subscription 0 stays in the table, the count of open communications stays 1 and no
  edge is reported to the transport. The handler of \<^verbatim>\<open>signalError\<close> deletes the record
  and updates the count.
\<close>

theorem detach_keeps_subscription:
  "events (run demoEnv
       [CreateSignal ''counter'' (JStr ''x'') None, AttachObserver 0, DetachObserver 0])
     = [Send (Out_signalSubscribe ''counter'' 0 (JStr ''x'')),
        OnHavingOneOrMoreOpenCommunication,
        Send (Out_signalUnsubscribe 0)]
   \<and> map fst (openSignalSubscriptions (run demoEnv
       [CreateSignal ''counter'' (JStr ''x'') None, AttachObserver 0, DetachObserver 0])) = [0]
   \<and> openCommunicationsCount (run demoEnv
       [CreateSignal ''counter'' (JStr ''x'') None, AttachObserver 0, DetachObserver 0]) = 1
   \<and> observers (signals (run demoEnv
       [CreateSignal ''counter'' (JStr ''x'') None, AttachObserver 0, DetachObserver 0]) ! 0) = 0"
  by (simp add: port_defs demo_defs)

subsection \<open>The tables stay consistent\<close>

lemma run_induct:
  assumes "P newClientPort" and "\<And>s operation. P s \<Longrightarrow> P (exec env s operation)"
  shows "P (run env ops)"
  unfolding run_def using assms by (induction ops rule: rev_induct) simp_all

lemma keysBelow_empty [simp]: "keysBelow n []"
  by (simp add: keysBelow_def)

lemma keysBelow_fresh: "keysBelow n m \<Longrightarrow> map_of m n = None"
  by (auto simp: keysBelow_def list_all_iff map_of_eq_None_iff)

lemma keysBelow_Suc: "keysBelow n m \<Longrightarrow> keysBelow (Suc n) m"
  by (auto simp: keysBelow_def list_all_iff)

lemma keysBelow_update:
  "keysBelow n m \<Longrightarrow> keysBelow (Suc n) (AList.update n v m)"
  by (auto simp: keysBelow_def list_all_iff update_keys)

lemma length_update_fresh:
  "keysBelow n m \<Longrightarrow> length (AList.update n v m) = Suc (length m)"
proof -
  assume k: "keysBelow n m"
  then have "n \<notin> set (map fst m)" by (auto simp: keysBelow_def list_all_iff)
  then have "map fst (AList.update n v m) = map fst m @ [n]" by (simp add: update_keys)
  then have "length (map fst (AList.update n v m)) = Suc (length m)" by simp
  then show ?thesis by simp
qed

lemma keysBelow_delete: "keysBelow n m \<Longrightarrow> keysBelow n (AList.delete k m)"
  by (auto simp: keysBelow_def list_all_iff delete_keys distinct_removeAll)

lemma length_delete_present:
  "distinct (map fst m) \<Longrightarrow> map_of m k = Some v \<Longrightarrow> Suc (length (AList.delete k m)) = length m"
proof (induction m)
  case Nil
  then show ?case by simp
next
  case (Cons p m)
  show ?case
  proof (cases "fst p = k")
    case True
    with Cons.prems have "k \<notin> fst ` set m" by auto
    then have "AList.delete k m = m" by simp
    with True show ?thesis by (cases p) (simp add: AList.delete_eq)
  next
    case False
    with Cons show ?thesis by (cases p) (auto simp: AList.delete_eq)
  qed
qed

lemma length_delete_keysBelow:
  "keysBelow n m \<Longrightarrow> map_of m k = Some v \<Longrightarrow> Suc (length (AList.delete k m)) = length m"
  by (simp add: keysBelow_def length_delete_present)

lemma foldl_emit_fields [simp]:
  "openChannels (foldl (\<lambda>t x. emit (f x) t) s xs) = openChannels s"
  "ongoingRpcs (foldl (\<lambda>t x. emit (f x) t) s xs) = ongoingRpcs s"
  "openSignalSubscriptions (foldl (\<lambda>t x. emit (f x) t) s xs) = openSignalSubscriptions s"
  "openWritableSignalSubscriptions (foldl (\<lambda>t x. emit (f x) t) s xs)
     = openWritableSignalSubscriptions s"
  "openCommunicationsCount (foldl (\<lambda>t x. emit (f x) t) s xs) = openCommunicationsCount s"
  "nextChannelId (foldl (\<lambda>t x. emit (f x) t) s xs) = nextChannelId s"
  "nextSubscribeId (foldl (\<lambda>t x. emit (f x) t) s xs) = nextSubscribeId s"
  "nextWritableSubscribeId (foldl (\<lambda>t x. emit (f x) t) s xs) = nextWritableSubscribeId s"
  "producedCommunicationWarningsCount (foldl (\<lambda>t x. emit (f x) t) s xs)
     = producedCommunicationWarningsCount s"
  "promises (foldl (\<lambda>t x. emit (f x) t) s xs) = promises s"
  "channels (foldl (\<lambda>t x. emit (f x) t) s xs) = channels s"
  "signals (foldl (\<lambda>t x. emit (f x) t) s xs) = signals s"
  "events (foldl (\<lambda>t x. emit (f x) t) s xs) = events s @ map f xs"
  by (induction xs arbitrary: s) simp_all

lemma foldl_reject_fields [simp]:
  "openChannels (foldl (\<lambda>t r. reject r err t) s rs) = openChannels s"
  "ongoingRpcs (foldl (\<lambda>t r. reject r err t) s rs) = ongoingRpcs s"
  "openSignalSubscriptions (foldl (\<lambda>t r. reject r err t) s rs) = openSignalSubscriptions s"
  "openWritableSignalSubscriptions (foldl (\<lambda>t r. reject r err t) s rs)
     = openWritableSignalSubscriptions s"
  "openCommunicationsCount (foldl (\<lambda>t r. reject r err t) s rs) = openCommunicationsCount s"
  "nextChannelId (foldl (\<lambda>t r. reject r err t) s rs) = nextChannelId s"
  "nextSubscribeId (foldl (\<lambda>t r. reject r err t) s rs) = nextSubscribeId s"
  "nextWritableSubscribeId (foldl (\<lambda>t r. reject r err t) s rs) = nextWritableSubscribeId s"
  "producedCommunicationWarningsCount (foldl (\<lambda>t r. reject r err t) s rs)
     = producedCommunicationWarningsCount s"
  "channels (foldl (\<lambda>t r. reject r err t) s rs) = channels s"
  "signals (foldl (\<lambda>t r. reject r err t) s rs) = signals s"
  "events (foldl (\<lambda>t r. reject r err t) s rs) = events s"
  by (induction rs arbitrary: s) (simp_all add: reject_def)

lemma errored_fields [simp]:
  "openChannels (errored err s) = openChannels s"
  "ongoingRpcs (errored err s) = ongoingRpcs s"
  "openSignalSubscriptions (errored err s) = openSignalSubscriptions s"
  "openWritableSignalSubscriptions (errored err s) = openWritableSignalSubscriptions s"
  "openCommunicationsCount (errored err s) = openCommunicationsCount s"
  "nextChannelId (errored err s) = nextChannelId s"
  "nextSubscribeId (errored err s) = nextSubscribeId s"
  "nextWritableSubscribeId (errored err s) = nextWritableSubscribeId s"
  "producedCommunicationWarningsCount (errored err s) = producedCommunicationWarningsCount s"
  "channels (errored err s) = channels s"
  "signals (errored err s) = signals s"
  "events (errored err s)
     = events s @ map (\<lambda>openChannel. ChannelErrored (channel openChannel) err)
                    (map snd (openChannels s))"
  by (simp_all add: errored_def Let_def)

lemmas handler_defs = receivedChannelSend_def receivedChannelAck_def receivedChannelClose_def
  receivedChannelError_def receivedRpcResult_def receivedRpcError_def
  receivedSignalUpdate_def receivedSignalError_def receivedWritableSignalUpdate_def
  receivedWritableSignalError_def receivedCommunicationWarning_def receivedKeepAliveAck_def
  resolve_def reject_def setValue_def

lemma tablesConsistent_new: "tablesConsistent newClientPort"
  by (simp add: tablesConsistent_def newClientPort_def)

lemma tablesConsistent_receivedMessage:
  "tablesConsistent s \<Longrightarrow> receivedMessage env message s = Inr s' \<Longrightarrow> tablesConsistent s'"
  by (cases message)
    (auto simp: tablesConsistent_def handler_defs Let_def keysBelow_delete
      split: option.splits)

lemma tablesConsistent_exec: "tablesConsistent s \<Longrightarrow> tablesConsistent (exec env s operation)"
proof (cases operation)
  case (OnMessage message)
  assume "tablesConsistent s"
  then show ?thesis using OnMessage tablesConsistent_receivedMessage [of s env message]
    by (auto simp: orElse_def split: sum.splits)
next
  case (OnError err)
  assume "tablesConsistent s"
  then show ?thesis using OnError by (simp add: tablesConsistent_def)
next
  case (CallRpc endpointName param stack)
  assume "tablesConsistent s"
  then show ?thesis using CallRpc
    by (auto simp: tablesConsistent_def callRpc_def callRpcBody_def async_def rejectedPromise_def orElse_def makePromise_def Let_def
        keysBelow_update keysBelow_Suc length_update_fresh split: option.splits sum.splits)
next
  case (CreateChannel endpointName param stack)
  assume "tablesConsistent s"
  then show ?thesis using CreateChannel
    by (auto simp: tablesConsistent_def createChannel_def orElse_def Let_def
        keysBelow_update keysBelow_Suc length_update_fresh split: option.splits sum.splits)
next
  case (ChannelSendPacket c packet)
  assume "tablesConsistent s"
  then show ?thesis using ChannelSendPacket
    by (auto simp: tablesConsistent_def channelSendPacket_def orElse_def
        split: option.splits sum.splits)
next
  case (CreateSignal endpointName param stack)
  assume "tablesConsistent s"
  then show ?thesis using CreateSignal
    by (auto simp: tablesConsistent_def createSignal_def orElse_def
        split: option.splits sum.splits)
next
  case (CreateWritableSignal endpointName param stack)
  assume "tablesConsistent s"
  then show ?thesis using CreateWritableSignal
    by (auto simp: tablesConsistent_def createWritableSignal_def orElse_def
        split: option.splits sum.splits)
next
  case (AttachObserver h)
  assume "tablesConsistent s"
  then show ?thesis using AttachObserver
    by (auto simp: tablesConsistent_def attachObserver_def subscribeUpstream_def
        signalSubscribeUpstream_def writableSignalSubscribeUpstream_def setObservers_def
        setCurrentSubscribeId_def Let_def
        keysBelow_update keysBelow_Suc length_update_fresh)
next
  case (DetachObserver h)
  assume "tablesConsistent s"
  then show ?thesis using DetachObserver
    by (auto simp: tablesConsistent_def detachObserver_def runTeardown_def
        signalTeardown_def writableSignalTeardown_def setObservers_def
        setCurrentSubscribeId_def Let_def split: option.splits)
next
  case (WriteUpstream h data patches tags)
  assume "tablesConsistent s"
  then show ?thesis using WriteUpstream
    by (auto simp: tablesConsistent_def writeUpstream_def orElse_def
        split: option.splits sum.splits)
qed

lemma tablesConsistent_run: "tablesConsistent (run env ops)"
  by (rule run_induct) (simp_all add: tablesConsistent_new tablesConsistent_exec)


subsection \<open>The edge reported when a communication ends\<close>

lemma updateOpenCommunicationsCount_release:
  assumes "Suc (length (openChannels s) + length (ongoingRpcs s)
             + length (openSignalSubscriptions s)
             + length (openWritableSignalSubscriptions s)) = openCommunicationsCount s"
  shows "events (updateOpenCommunicationsCount s)
           = events s @ (if openCommunicationsCount s = 1
                         then [OnHavingNoOpenCommunication] else [])"
proof -
  define n where "n = length (openChannels s) + length (ongoingRpcs s)
             + length (openSignalSubscriptions s)
             + length (openWritableSignalSubscriptions s)"
  from assms have c: "openCommunicationsCount s = Suc n" by (simp add: n_def)
  have "events (updateOpenCommunicationsCount s)
          = events s @ (if n = 0 \<and> openCommunicationsCount s > 0
                        then [OnHavingNoOpenCommunication]
                        else if n = 1 \<and> openCommunicationsCount s = 0
                        then [OnHavingOneOrMoreOpenCommunication] else [])"
    unfolding updateOpenCommunicationsCount_events Let_def n_def ..
  then show ?thesis by (simp add: c)
qed

subsection \<open>Identifiers are handed out once\<close>

lemma concat_map_ChannelErrored:
  "(\<And>c. ids (ChannelErrored c err) = []) \<Longrightarrow>
     concat (map ids (map (\<lambda>x. ChannelErrored (g x) err) xs)) = []"
  by (induction xs) simp_all

lemma communicationWarning_ids [simp]:
  "concat (map sharedCounterIds (events (communicationWarning w s)))
     = concat (map sharedCounterIds (events s))"
  "concat (map subscribeIds (events (communicationWarning w s)))
     = concat (map subscribeIds (events s))"
  "concat (map writableSubscribeIds (events (communicationWarning w s)))
     = concat (map writableSubscribeIds (events s))"
  by (simp_all add: communicationWarning_events)

lemma updateOpenCommunicationsCount_ids [simp]:
  "concat (map sharedCounterIds (events (updateOpenCommunicationsCount s)))
     = concat (map sharedCounterIds (events s))"
  "concat (map subscribeIds (events (updateOpenCommunicationsCount s)))
     = concat (map subscribeIds (events s))"
  "concat (map writableSubscribeIds (events (updateOpenCommunicationsCount s)))
     = concat (map writableSubscribeIds (events s))"
  by (simp_all add: updateOpenCommunicationsCount_events Let_def)

lemma idsCounted_new: "idsCounted newClientPort"
  by (simp add: idsCounted_def allocated_def newClientPort_def)

lemma idsCounted_receivedMessage:
  "idsCounted s \<Longrightarrow> receivedMessage env message s = Inr s' \<Longrightarrow> idsCounted s'"
  by (cases message)
    (auto simp: idsCounted_def allocated_def handler_defs Let_def split: option.splits)

lemma idsCounted_exec: "idsCounted s \<Longrightarrow> idsCounted (exec env s operation)"
proof (cases operation)
  case (OnMessage message)
  assume "idsCounted s"
  then show ?thesis using OnMessage idsCounted_receivedMessage [of s env message]
    by (auto simp: orElse_def split: sum.splits)
next
  case (OnError err)
  assume "idsCounted s"
  then show ?thesis using OnError
    by (simp add: idsCounted_def allocated_def concat_map_ChannelErrored del: map_map)
next
  case (CallRpc endpointName param stack)
  assume "idsCounted s"
  then show ?thesis using CallRpc
    by (auto simp: idsCounted_def allocated_def callRpc_def callRpcBody_def async_def rejectedPromise_def orElse_def makePromise_def Let_def
        split: option.splits sum.splits)
next
  case (CreateChannel endpointName param stack)
  assume "idsCounted s"
  then show ?thesis using CreateChannel
    by (auto simp: idsCounted_def allocated_def createChannel_def orElse_def Let_def
        split: option.splits sum.splits)
next
  case (ChannelSendPacket c packet)
  assume "idsCounted s"
  then show ?thesis using ChannelSendPacket
    by (auto simp: idsCounted_def allocated_def channelSendPacket_def orElse_def
        split: option.splits sum.splits)
next
  case (CreateSignal endpointName param stack)
  assume "idsCounted s"
  then show ?thesis using CreateSignal
    by (auto simp: idsCounted_def allocated_def createSignal_def orElse_def
        split: option.splits sum.splits)
next
  case (CreateWritableSignal endpointName param stack)
  assume "idsCounted s"
  then show ?thesis using CreateWritableSignal
    by (auto simp: idsCounted_def allocated_def createWritableSignal_def orElse_def
        split: option.splits sum.splits)
next
  case (AttachObserver h)
  assume "idsCounted s"
  then show ?thesis using AttachObserver
    by (auto simp: idsCounted_def allocated_def attachObserver_def subscribeUpstream_def
        signalSubscribeUpstream_def writableSignalSubscribeUpstream_def setObservers_def
        setCurrentSubscribeId_def Let_def)
next
  case (DetachObserver h)
  assume "idsCounted s"
  then show ?thesis using DetachObserver
    by (auto simp: idsCounted_def allocated_def detachObserver_def runTeardown_def
        signalTeardown_def writableSignalTeardown_def setObservers_def
        setCurrentSubscribeId_def Let_def split: option.splits)
next
  case (WriteUpstream h data patches tags)
  assume "idsCounted s"
  then show ?thesis using WriteUpstream
    by (auto simp: idsCounted_def allocated_def writeUpstream_def orElse_def
        split: option.splits sum.splits)
qed

lemma idsCounted_run: "idsCounted (run env ops)"
  by (rule run_induct) (simp_all add: idsCounted_new idsCounted_exec)

lemma sharedCounterIds_split: "sharedCounterIds e = callIds e @ channelIds e"
proof (cases e)
  case (Send frame)
  then show ?thesis by (cases frame) simp_all
qed simp_all

lemma callIds_channelIds_disjoint:
  "distinct (concat (map sharedCounterIds evs)) \<Longrightarrow>
     set (concat (map callIds evs)) \<inter> set (concat (map channelIds evs)) = {}
     \<and> set (concat (map callIds evs)) \<union> set (concat (map channelIds evs))
         = set (concat (map sharedCounterIds evs))"
proof (induction evs)
  case Nil
  then show ?case by simp
next
  case (Cons e evs)
  then show ?case
    by (simp add: sharedCounterIds_split) blast
qed

text \<open>
  Claim C7. After any run of a port, the call ids and channel ids it has handed out are,
  in allocation order, exactly \<open>0, 1, \<dots>\<close> up to \<^verbatim>\<open>nextChannelId\<close>: one counter serves
  both, so no call id is a channel id. The subscribe ids of read-only signals are exactly
  \<open>0, 1, \<dots>\<close> up to \<^verbatim>\<open>nextSubscribeId\<close>, those of writable signals exactly
  \<open>0, 1, \<dots>\<close> up to \<^verbatim>\<open>nextWritableSubscribeId\<close>. Within each counter every new id
  is greater than all earlier ones and no id is handed out twice.
\<close>

theorem ids_allocated_once:
  "allocated sharedCounterIds (run env ops) = [0..<nextChannelId (run env ops)]
   \<and> allocated subscribeIds (run env ops) = [0..<nextSubscribeId (run env ops)]
   \<and> allocated writableSubscribeIds (run env ops)
       = [0..<nextWritableSubscribeId (run env ops)]
   \<and> sorted_wrt (<) (allocated sharedCounterIds (run env ops))
   \<and> sorted_wrt (<) (allocated subscribeIds (run env ops))
   \<and> sorted_wrt (<) (allocated writableSubscribeIds (run env ops))
   \<and> distinct (allocated sharedCounterIds (run env ops))
   \<and> distinct (allocated subscribeIds (run env ops))
   \<and> distinct (allocated writableSubscribeIds (run env ops))
   \<and> set (allocated callIds (run env ops)) \<inter> set (allocated channelIds (run env ops)) = {}"
proof -
  have c: "idsCounted (run env ops)" by (rule idsCounted_run)
  then have d: "distinct (allocated sharedCounterIds (run env ops))"
    by (simp add: idsCounted_def)
  from callIds_channelIds_disjoint [of "events (run env ops)"] d
  have "set (allocated callIds (run env ops)) \<inter> set (allocated channelIds (run env ops)) = {}"
    by (simp add: allocated_def)
  with c show ?thesis
    by (simp add: idsCounted_def sorted_wrt_upt)
qed

theorem ids_allocated_once_witness:
  "allocated sharedCounterIds (run demoEnv
       [CallRpc ''add'' (JObj [(''a'', JNum 2), (''b'', JNum 3)]) None,
        CreateSignal ''counter'' (JStr ''x'') None, AttachObserver 0,
        CreateChannel ''chat'' (JStr ''hi'') None,
        CallRpc ''add'' (JObj [(''a'', JNum 4), (''b'', JNum 5)]) None,
        CreateWritableSignal ''setting'' (JStr ''y'') None, AttachObserver 1,
        DetachObserver 0, AttachObserver 0]) = [0, 1, 2]
   \<and> allocated callIds (run demoEnv
       [CallRpc ''add'' (JObj [(''a'', JNum 2), (''b'', JNum 3)]) None,
        CreateSignal ''counter'' (JStr ''x'') None, AttachObserver 0,
        CreateChannel ''chat'' (JStr ''hi'') None,
        CallRpc ''add'' (JObj [(''a'', JNum 4), (''b'', JNum 5)]) None,
        CreateWritableSignal ''setting'' (JStr ''y'') None, AttachObserver 1,
        DetachObserver 0, AttachObserver 0]) = [0, 2]
   \<and> allocated channelIds (run demoEnv
       [CallRpc ''add'' (JObj [(''a'', JNum 2), (''b'', JNum 3)]) None,
        CreateSignal ''counter'' (JStr ''x'') None, AttachObserver 0,
        CreateChannel ''chat'' (JStr ''hi'') None,
        CallRpc ''add'' (JObj [(''a'', JNum 4), (''b'', JNum 5)]) None,
        CreateWritableSignal ''setting'' (JStr ''y'') None, AttachObserver 1,
        DetachObserver 0, AttachObserver 0]) = [1]
   \<and> allocated subscribeIds (run demoEnv
       [CallRpc ''add'' (JObj [(''a'', JNum 2), (''b'', JNum 3)]) None,
        CreateSignal ''counter'' (JStr ''x'') None, AttachObserver 0,
        CreateChannel ''chat'' (JStr ''hi'') None,
        CallRpc ''add'' (JObj [(''a'', JNum 4), (''b'', JNum 5)]) None,
        CreateWritableSignal ''setting'' (JStr ''y'') None, AttachObserver 1,
        DetachObserver 0, AttachObserver 0]) = [0, 1]
   \<and> allocated writableSubscribeIds (run demoEnv
       [CallRpc ''add'' (JObj [(''a'', JNum 2), (''b'', JNum 3)]) None,
        CreateSignal ''counter'' (JStr ''x'') None, AttachObserver 0,
        CreateChannel ''chat'' (JStr ''hi'') None,
        CallRpc ''add'' (JObj [(''a'', JNum 4), (''b'', JNum 5)]) None,
        CreateWritableSignal ''setting'' (JStr ''y'') None, AttachObserver 1,
        DetachObserver 0, AttachObserver 0]) = [0]"
proof -
  let ?ops = "[CallRpc ''add'' (JObj [(''a'', JNum 2), (''b'', JNum 3)]) None,
        CreateSignal ''counter'' (JStr ''x'') None, AttachObserver 0,
        CreateChannel ''chat'' (JStr ''hi'') None,
        CallRpc ''add'' (JObj [(''a'', JNum 4), (''b'', JNum 5)]) None,
        CreateWritableSignal ''setting'' (JStr ''y'') None, AttachObserver 1,
        DetachObserver 0, AttachObserver 0] :: (json, demoError) Operation list"
  have n: "nextChannelId (run demoEnv ?ops) = 3" "nextSubscribeId (run demoEnv ?ops) = 2"
    "nextWritableSubscribeId (run demoEnv ?ops) = 1"
    by (simp_all add: port_defs demo_defs)
  have u: "[0..<3] = [0, 1, 2]" "[0..<2] = [0, 1]" "[0..<1] = [0::nat]"
    by (simp_all add: upt_rec)
  have ci: "allocated callIds (run demoEnv ?ops) = [0, 2]"
    "allocated channelIds (run demoEnv ?ops) = [1]"
    by (simp_all add: allocated_def port_defs demo_defs)
  from ids_allocated_once [of demoEnv ?ops] show ?thesis
    unfolding n u using ci by simp
qed

subsection \<open>The cap on communication warnings\<close>

lemma producedWarnings_quiet: "\<not> isWarningEvent e \<Longrightarrow> producedWarnings e = []"
proof (cases e)
  case (Send frame)
  assume "\<not> isWarningEvent e"
  with Send show ?thesis by (cases frame) (simp_all add: isWarningEvent_def)
qed simp_all

lemma quiet_events:
  "list_all (\<lambda>e. \<not> isWarningEvent e) evs \<Longrightarrow>
     filter isWarningEvent evs = [] \<and> concat (map producedWarnings evs) = []"
  by (induction evs) (simp_all add: producedWarnings_quiet)

lemma cappedTrace_quiet [simp]:
  "list_all (\<lambda>e. \<not> isWarningEvent e) evs \<Longrightarrow> cappedTrace n (xs @ evs) = cappedTrace n xs"
  by (simp add: cappedTrace_def quiet_events)

lemma isWarningEvent_simps [simp]:
  "isWarningEvent (Send (Out_communicationWarning w))"
  "isWarningEvent (WarnText (ProducedCommunicationWarning w))"
  "isWarningEvent (ErrorText t)"
  "\<not> isWarningEvent (WarnText (ReceivedCommunicationWarning t'))"
  "\<not> isWarningEvent (Send (Out_rpcCall n i p))"
  "\<not> isWarningEvent (Send (Out_channelCreate n i p))"
  "\<not> isWarningEvent (Send (Out_channelSend i p))"
  "\<not> isWarningEvent (Send (Out_signalSubscribe n i p))"
  "\<not> isWarningEvent (Send (Out_signalUnsubscribe i))"
  "\<not> isWarningEvent (Send (Out_writableSignalSubscribe n i p))"
  "\<not> isWarningEvent (Send (Out_writableSignalUnsubscribe i))"
  "\<not> isWarningEvent (Send (Out_writableSignalUpdate i ps ts))"
  "\<not> isWarningEvent OnHavingNoOpenCommunication"
  "\<not> isWarningEvent OnHavingOneOrMoreOpenCommunication"
  "\<not> isWarningEvent (ChannelReceivedMessage c p)"
  "\<not> isWarningEvent (ChannelReceivedAck c a)"
  "\<not> isWarningEvent (ChannelErrored c err)"
  "\<not> isWarningEvent (ChannelClosed c)"
  "\<not> isWarningEvent (SignalSetValue h p ts)"
  "\<not> isWarningEvent (SignalErrored h err)"
  by (simp_all add: isWarningEvent_def)

lemma cappedTrace_updateOpenCommunicationsCount [simp]:
  "cappedTrace n (events (updateOpenCommunicationsCount s)) = cappedTrace n (events s)"
  by (simp add: updateOpenCommunicationsCount_events Let_def)

lemma warningsCapped_communicationWarning:
  assumes "cappedTrace (producedCommunicationWarningsCount s) (events s)"
  shows "cappedTrace (producedCommunicationWarningsCount (communicationWarning w s))
           (events (communicationWarning w s))"
proof (cases "producedCommunicationWarningsCount s \<ge> 5")
  case True
  with assms show ?thesis
    by (simp add: communicationWarning_events communicationWarning_count)
next
  case False
  with assms show ?thesis
    by (auto simp: communicationWarning_events communicationWarning_count cappedTrace_def
        warningLines_def)
qed

lemma warningsCapped_new: "warningsCapped newClientPort"
  by (simp add: warningsCapped_def cappedTrace_def newClientPort_def)

lemma warningsCapped_receivedMessage:
  "warningsCapped s \<Longrightarrow> receivedMessage env message s = Inr s' \<Longrightarrow> warningsCapped s'"
  by (cases message)
    (auto simp: warningsCapped_def handler_defs Let_def warningsCapped_communicationWarning
      split: option.splits)

lemma warningsCapped_exec: "warningsCapped s \<Longrightarrow> warningsCapped (exec env s operation)"
proof (cases operation)
  case (OnMessage message)
  assume "warningsCapped s"
  then show ?thesis using OnMessage warningsCapped_receivedMessage [of s env message]
    by (auto simp: orElse_def split: sum.splits)
next
  case (OnError err)
  assume "warningsCapped s"
  then show ?thesis using OnError by (simp add: warningsCapped_def list_all_iff)
next
  case (CallRpc endpointName param stack)
  assume "warningsCapped s"
  then show ?thesis using CallRpc
    by (auto simp: warningsCapped_def callRpc_def callRpcBody_def async_def rejectedPromise_def orElse_def makePromise_def Let_def
        split: option.splits sum.splits)
next
  case (CreateChannel endpointName param stack)
  assume "warningsCapped s"
  then show ?thesis using CreateChannel
    by (auto simp: warningsCapped_def createChannel_def orElse_def Let_def
        split: option.splits sum.splits)
next
  case (ChannelSendPacket c packet)
  assume "warningsCapped s"
  then show ?thesis using ChannelSendPacket
    by (auto simp: warningsCapped_def channelSendPacket_def orElse_def
        split: option.splits sum.splits)
next
  case (CreateSignal endpointName param stack)
  assume "warningsCapped s"
  then show ?thesis using CreateSignal
    by (auto simp: warningsCapped_def createSignal_def orElse_def
        split: option.splits sum.splits)
next
  case (CreateWritableSignal endpointName param stack)
  assume "warningsCapped s"
  then show ?thesis using CreateWritableSignal
    by (auto simp: warningsCapped_def createWritableSignal_def orElse_def
        split: option.splits sum.splits)
next
  case (AttachObserver h)
  assume "warningsCapped s"
  then show ?thesis using AttachObserver
    by (auto simp: warningsCapped_def attachObserver_def subscribeUpstream_def
        signalSubscribeUpstream_def writableSignalSubscribeUpstream_def setObservers_def
        setCurrentSubscribeId_def Let_def)
next
  case (DetachObserver h)
  assume "warningsCapped s"
  then show ?thesis using DetachObserver
    by (auto simp: warningsCapped_def detachObserver_def runTeardown_def
        signalTeardown_def writableSignalTeardown_def setObservers_def
        setCurrentSubscribeId_def Let_def split: option.splits)
next
  case (WriteUpstream h data patches tags)
  assume "warningsCapped s"
  then show ?thesis using WriteUpstream
    by (auto simp: warningsCapped_def writeUpstream_def orElse_def
        split: option.splits sum.splits)
qed

lemma warningsCapped_run: "warningsCapped (run env ops)"
  by (rule run_induct) (simp_all add: warningsCapped_new warningsCapped_exec)


lemma filter_within:
  "(\<And>x. P x \<Longrightarrow> Q x) \<Longrightarrow> filter P (filter Q xs) = filter P xs"
  by (induction xs) auto

lemma count_warningLines:
  "length (filter isWarningFrame (concat (map warningLines ws))) = length ws"
  "length (filter isProducedWarningLog (concat (map warningLines ws))) = length ws"
  "length (filter isErrorLog (concat (map warningLines ws))) = 0"
  by (induction ws) (simp_all add: warningLines_def)

lemma cappedTrace_counts:
  assumes "cappedTrace n evs"
  shows "length (filter isWarningFrame evs) = n"
    and "length (filter isProducedWarningLog evs) = n"
    and "length (filter isErrorLog evs) = (if n = 5 then 1 else 0)"
proof -
  let ?ws = "concat (map producedWarnings evs)"
  let ?tail = "if n = 5 then [ErrorText WarningsSuppressed] else []"
  from assms have n: "length ?ws = n"
    and e: "filter isWarningEvent evs = concat (map warningLines ?ws) @ ?tail"
    by (simp_all add: cappedTrace_def)
  have "filter isWarningFrame evs = filter isWarningFrame (filter isWarningEvent evs)"
    by (rule filter_within [symmetric]) (simp add: isWarningEvent_def)
  then show "length (filter isWarningFrame evs) = n"
    by (simp add: e count_warningLines n)
  have "filter isProducedWarningLog evs
          = filter isProducedWarningLog (filter isWarningEvent evs)"
    by (rule filter_within [symmetric]) (simp add: isWarningEvent_def)
  then show "length (filter isProducedWarningLog evs) = n"
    by (simp add: e count_warningLines n)
  have "filter isErrorLog evs = filter isErrorLog (filter isWarningEvent evs)"
    by (rule filter_within [symmetric]) (simp add: isWarningEvent_def)
  then show "length (filter isErrorLog evs) = (if n = 5 then 1 else 0)"
    by (simp add: e count_warningLines)
qed

lemma foldl_communicationWarning_count:
  "producedCommunicationWarningsCount s \<le> 5 \<Longrightarrow>
     producedCommunicationWarningsCount (foldl (\<lambda>t w. communicationWarning w t) s ws)
       = min 5 (producedCommunicationWarningsCount s + length ws)"
  by (induction ws arbitrary: s) (simp_all add: communicationWarning_count)

lemma communicationWarning_silent:
  "producedCommunicationWarningsCount s \<ge> 5 \<Longrightarrow> communicationWarning w s = s"
  by (simp add: communicationWarning_def)

text \<open>
  Claim C3. After any run of a port the warning counter is at most 5; the number of
  outbound \<^verbatim>\<open>communicationWarning\<close> frames and the number of local warning lines both
  equal the counter; the warning events are the pairs of line and frame in order, and
  once the counter is 5 they end with exactly one error line about suppression. However
  many calls of \<^verbatim>\<open>communicationWarning\<close> follow, five or more of them bring the counter
  to 5, and at 5 a call changes nothing. An inbound \<^verbatim>\<open>communicationWarning\<close> frame adds
  one local line about the received warning, sends nothing and leaves the counter alone.
\<close>

theorem communication_warnings_capped:
  "producedCommunicationWarningsCount (run env ops) \<le> 5
   \<and> length (filter isWarningFrame (events (run env ops)))
       = producedCommunicationWarningsCount (run env ops)
   \<and> length (filter isProducedWarningLog (events (run env ops)))
       = producedCommunicationWarningsCount (run env ops)
   \<and> length (filter isErrorLog (events (run env ops)))
       = (if producedCommunicationWarningsCount (run env ops) = 5 then 1 else 0)
   \<and> filter isWarningEvent (events (run env ops))
       = concat (map warningLines (concat (map producedWarnings (events (run env ops)))))
         @ (if producedCommunicationWarningsCount (run env ops) = 5
            then [ErrorText WarningsSuppressed] else [])
   \<and> (\<forall>ws. 5 \<le> length ws \<longrightarrow>
         producedCommunicationWarningsCount
           (foldl (\<lambda>t w. communicationWarning w t) (run env ops) ws) = 5)
   \<and> (\<forall>w. producedCommunicationWarningsCount (run env ops) = 5 \<longrightarrow>
         communicationWarning w (run env ops) = run env ops)
   \<and> (\<forall>text s.
         receivedMessage env (In_communicationWarning text) s
           = Inr (emit (WarnText (ReceivedCommunicationWarning text)) s)
         \<and> events (exec env s (OnMessage (In_communicationWarning text)))
             = events s @ [WarnText (ReceivedCommunicationWarning text)]
         \<and> producedCommunicationWarningsCount
             (exec env s (OnMessage (In_communicationWarning text)))
             = producedCommunicationWarningsCount s)"
proof -
  have c: "cappedTrace (producedCommunicationWarningsCount (run env ops)) (events (run env ops))"
    using warningsCapped_run [of env ops] by (simp add: warningsCapped_def)
  then have le: "producedCommunicationWarningsCount (run env ops) \<le> 5"
    by (simp add: cappedTrace_def)
  from c have e: "filter isWarningEvent (events (run env ops))
       = concat (map warningLines (concat (map producedWarnings (events (run env ops)))))
         @ (if producedCommunicationWarningsCount (run env ops) = 5
            then [ErrorText WarningsSuppressed] else [])"
    by (simp add: cappedTrace_def)
  have f: "\<forall>ws. 5 \<le> length ws \<longrightarrow>
         producedCommunicationWarningsCount
           (foldl (\<lambda>t w. communicationWarning w t) (run env ops) ws) = 5"
    using le by (simp add: foldl_communicationWarning_count)
  have g: "\<forall>w. producedCommunicationWarningsCount (run env ops) = 5 \<longrightarrow>
         communicationWarning w (run env ops) = run env ops"
    by (simp add: communicationWarning_silent)
  have h: "\<forall>text s.
         receivedMessage env (In_communicationWarning text) s
           = Inr (emit (WarnText (ReceivedCommunicationWarning text)) s)
         \<and> events (exec env s (OnMessage (In_communicationWarning text)))
             = events s @ [WarnText (ReceivedCommunicationWarning text)]
         \<and> producedCommunicationWarningsCount
             (exec env s (OnMessage (In_communicationWarning text)))
             = producedCommunicationWarningsCount s"
    by (simp add: receivedCommunicationWarning_def orElse_def)
  from le cappedTrace_counts [OF c] e f g h show ?thesis by blast
qed

theorem communication_warnings_capped_witness:
  "producedCommunicationWarningsCount (run demoEnv
       [OnMessage (In_signalUpdate 42 [] []), OnMessage (In_signalUpdate 42 [] []),
        OnMessage (In_signalUpdate 42 [] []), OnMessage (In_communicationWarning ''hello''),
        OnMessage (In_signalUpdate 42 [] []), OnMessage (In_signalUpdate 42 [] []),
        OnMessage (In_signalUpdate 42 [] [])]) = 5
   \<and> length (filter isWarningFrame (events (run demoEnv
       [OnMessage (In_signalUpdate 42 [] []), OnMessage (In_signalUpdate 42 [] []),
        OnMessage (In_signalUpdate 42 [] []), OnMessage (In_communicationWarning ''hello''),
        OnMessage (In_signalUpdate 42 [] []), OnMessage (In_signalUpdate 42 [] []),
        OnMessage (In_signalUpdate 42 [] [])]))) = 5
   \<and> length (filter isProducedWarningLog (events (run demoEnv
       [OnMessage (In_signalUpdate 42 [] []), OnMessage (In_signalUpdate 42 [] []),
        OnMessage (In_signalUpdate 42 [] []), OnMessage (In_communicationWarning ''hello''),
        OnMessage (In_signalUpdate 42 [] []), OnMessage (In_signalUpdate 42 [] []),
        OnMessage (In_signalUpdate 42 [] [])]))) = 5
   \<and> length (filter isErrorLog (events (run demoEnv
       [OnMessage (In_signalUpdate 42 [] []), OnMessage (In_signalUpdate 42 [] []),
        OnMessage (In_signalUpdate 42 [] []), OnMessage (In_communicationWarning ''hello''),
        OnMessage (In_signalUpdate 42 [] []), OnMessage (In_signalUpdate 42 [] []),
        OnMessage (In_signalUpdate 42 [] [])]))) = 1
   \<and> last (events (run demoEnv
       [OnMessage (In_signalUpdate 42 [] []), OnMessage (In_signalUpdate 42 [] []),
        OnMessage (In_signalUpdate 42 [] []), OnMessage (In_communicationWarning ''hello''),
        OnMessage (In_signalUpdate 42 [] []), OnMessage (In_signalUpdate 42 [] []),
        OnMessage (In_signalUpdate 42 [] [])])) = ErrorText WarningsSuppressed
   \<and> communicationWarning (ReceivedForUnknown rpcResult 7) (run demoEnv
       [OnMessage (In_signalUpdate 42 [] []), OnMessage (In_signalUpdate 42 [] []),
        OnMessage (In_signalUpdate 42 [] []), OnMessage (In_communicationWarning ''hello''),
        OnMessage (In_signalUpdate 42 [] []), OnMessage (In_signalUpdate 42 [] []),
        OnMessage (In_signalUpdate 42 [] [])])
     = run demoEnv
       [OnMessage (In_signalUpdate 42 [] []), OnMessage (In_signalUpdate 42 [] []),
        OnMessage (In_signalUpdate 42 [] []), OnMessage (In_communicationWarning ''hello''),
        OnMessage (In_signalUpdate 42 [] []), OnMessage (In_signalUpdate 42 [] []),
        OnMessage (In_signalUpdate 42 [] [])]
   \<and> producedCommunicationWarningsCount
       (foldl (\<lambda>t w. communicationWarning w t) (run demoEnv [])
          [ReceivedForUnknown rpcResult 1, ReceivedForUnknown rpcResult 2,
           ReceivedForUnknown rpcResult 3, ReceivedForUnknown rpcResult 4,
           ReceivedForUnknown rpcResult 5, ReceivedForUnknown rpcResult 6]) = 5"
proof -
  let ?ops = "[OnMessage (In_signalUpdate 42 [] []), OnMessage (In_signalUpdate 42 [] []),
        OnMessage (In_signalUpdate 42 [] []), OnMessage (In_communicationWarning ''hello''),
        OnMessage (In_signalUpdate 42 [] []), OnMessage (In_signalUpdate 42 [] []),
        OnMessage (In_signalUpdate 42 [] [])] :: (json, demoError) Operation list"
  have n: "producedCommunicationWarningsCount (run demoEnv ?ops) = 5"
    by (simp add: port_defs handler_defs communicationWarning_def)
  have l: "last (events (run demoEnv ?ops)) = ErrorText WarningsSuppressed"
    by (simp add: port_defs handler_defs communicationWarning_def)
  note t = communication_warnings_capped [of demoEnv ?ops]
  from t have a: "length (filter isWarningFrame (events (run demoEnv ?ops))) = 5"
    unfolding n by blast
  from t have b: "length (filter isProducedWarningLog (events (run demoEnv ?ops))) = 5"
    unfolding n by blast
  from t have c: "length (filter isErrorLog (events (run demoEnv ?ops))) = 1"
    unfolding n by simp
  from t have d: "communicationWarning (ReceivedForUnknown rpcResult 7) (run demoEnv ?ops)
      = run demoEnv ?ops"
    unfolding n by blast
  from communication_warnings_capped [of demoEnv "[]"]
  have "\<forall>ws :: json WarningText list. 5 \<le> length ws \<longrightarrow>
         producedCommunicationWarningsCount
           (foldl (\<lambda>t w. communicationWarning w t)
              (run demoEnv [] :: (json, demoError) ClientPort) ws) = 5"
    by blast
  from this [THEN spec, of "[ReceivedForUnknown rpcResult 1, ReceivedForUnknown rpcResult 2,
           ReceivedForUnknown rpcResult 3, ReceivedForUnknown rpcResult 4,
           ReceivedForUnknown rpcResult 5, ReceivedForUnknown rpcResult 6]"]
  have e: "producedCommunicationWarningsCount
       (foldl (\<lambda>t w. communicationWarning w t)
          (run demoEnv [] :: (json, demoError) ClientPort)
          [ReceivedForUnknown rpcResult 1, ReceivedForUnknown rpcResult 2,
           ReceivedForUnknown rpcResult 3, ReceivedForUnknown rpcResult 4,
           ReceivedForUnknown rpcResult 5, ReceivedForUnknown rpcResult 6]) = 5"
    by simp
  from n a b c l d e show ?thesis by blast
qed

subsection \<open>Writing to a writable signal\<close>

lemma sessionsConsistent_new: "sessionsConsistent newClientPort"
  by (simp add: sessionsConsistent_def newClientPort_def)

lemma sessionConsistent_sigValue [simp]:
  "sessionConsistent (obj\<lparr>sigValue := v\<rparr>) = sessionConsistent obj"
  by (simp add: sessionConsistent_def)

lemma nth_update_total:
  "xs[i := x] ! j = (if i = j \<and> i < length xs then x else xs ! j)"
  by (cases "i < length xs") (simp_all add: nth_list_update list_update_beyond not_less)

lemma list_all_update_nth:
  "list_all P xs \<Longrightarrow> (h < length xs \<Longrightarrow> P x) \<Longrightarrow> list_all P (xs[h := x])"
  by (auto simp: list_all_length nth_update_total)

lemma sessionsConsistent_setValue:
  "sessionsConsistent s \<Longrightarrow> sessionsConsistent (setValue sub v tags s)"
  by (auto simp: sessionsConsistent_def setValue_def list_all_length nth_update_total)

lemmas handler_defs_no_setValue = receivedChannelSend_def receivedChannelAck_def
  receivedChannelClose_def receivedChannelError_def receivedRpcResult_def receivedRpcError_def
  receivedSignalUpdate_def receivedSignalError_def receivedWritableSignalUpdate_def
  receivedWritableSignalError_def receivedCommunicationWarning_def receivedKeepAliveAck_def
  resolve_def reject_def

lemma setValue_fields [simp]:
  "openChannels (setValue sub v tags s) = openChannels s"
  "ongoingRpcs (setValue sub v tags s) = ongoingRpcs s"
  "openSignalSubscriptions (setValue sub v tags s) = openSignalSubscriptions s"
  "openWritableSignalSubscriptions (setValue sub v tags s) = openWritableSignalSubscriptions s"
  "openCommunicationsCount (setValue sub v tags s) = openCommunicationsCount s"
  "nextChannelId (setValue sub v tags s) = nextChannelId s"
  "nextSubscribeId (setValue sub v tags s) = nextSubscribeId s"
  "nextWritableSubscribeId (setValue sub v tags s) = nextWritableSubscribeId s"
  "producedCommunicationWarningsCount (setValue sub v tags s)
     = producedCommunicationWarningsCount s"
  "promises (setValue sub v tags s) = promises s"
  "channels (setValue sub v tags s) = channels s"
  by (simp_all add: setValue_def)

lemma sessionsConsistent_receivedMessage:
  "sessionsConsistent s \<Longrightarrow> receivedMessage env message s = Inr s' \<Longrightarrow> sessionsConsistent s'"
proof (cases message)
  case (In_signalUpdate subscribeId patches tags)
  assume "sessionsConsistent s" "receivedMessage env message s = Inr s'"
  with In_signalUpdate show ?thesis
    by (auto simp: receivedSignalUpdate_def Let_def sessionsConsistent_setValue
        split: option.splits)
      (simp_all add: sessionsConsistent_def)
next
  case (In_writableSignalUpdate subscribeId patches tags)
  assume "sessionsConsistent s" "receivedMessage env message s = Inr s'"
  with In_writableSignalUpdate show ?thesis
    by (auto simp: receivedWritableSignalUpdate_def Let_def sessionsConsistent_setValue
        split: option.splits)
      (simp_all add: sessionsConsistent_def)
qed (auto simp: sessionsConsistent_def handler_defs_no_setValue Let_def split: option.splits)

lemma sessionsConsistent_exec:
  "sessionsConsistent s \<Longrightarrow> sessionsConsistent (exec env s operation)"
proof (cases operation)
  case (OnMessage message)
  assume "sessionsConsistent s"
  then show ?thesis using OnMessage sessionsConsistent_receivedMessage [of s env message]
    by (auto simp: orElse_def split: sum.splits)
next
  case (OnError err)
  assume "sessionsConsistent s"
  then show ?thesis using OnError by (simp add: sessionsConsistent_def)
next
  case (CallRpc endpointName param stack)
  assume "sessionsConsistent s"
  then show ?thesis using CallRpc
    by (auto simp: sessionsConsistent_def callRpc_def callRpcBody_def async_def rejectedPromise_def orElse_def makePromise_def Let_def
        split: option.splits sum.splits)
next
  case (CreateChannel endpointName param stack)
  assume "sessionsConsistent s"
  then show ?thesis using CreateChannel
    by (auto simp: sessionsConsistent_def createChannel_def orElse_def Let_def
        split: option.splits sum.splits)
next
  case (ChannelSendPacket c packet)
  assume "sessionsConsistent s"
  then show ?thesis using ChannelSendPacket
    by (auto simp: sessionsConsistent_def channelSendPacket_def orElse_def
        split: option.splits sum.splits)
next
  case (CreateSignal endpointName param stack)
  assume "sessionsConsistent s"
  then show ?thesis using CreateSignal
    by (auto simp: sessionsConsistent_def createSignal_def orElse_def newSignalObject_def
        sessionConsistent_def split: option.splits sum.splits)
next
  case (CreateWritableSignal endpointName param stack)
  assume "sessionsConsistent s"
  then show ?thesis using CreateWritableSignal
    by (auto simp: sessionsConsistent_def createWritableSignal_def orElse_def
        newSignalObject_def sessionConsistent_def split: option.splits sum.splits)
next
  case (AttachObserver h)
  assume "sessionsConsistent s"
  then show ?thesis using AttachObserver
    by (auto simp: sessionsConsistent_def attachObserver_def subscribeUpstream_def
        signalSubscribeUpstream_def writableSignalSubscribeUpstream_def setObservers_def
        setCurrentSubscribeId_def Let_def list_all_length nth_update_total
        sessionConsistent_def)
next
  case (DetachObserver h)
  assume "sessionsConsistent s"
  then show ?thesis using DetachObserver
    by (auto simp: sessionsConsistent_def detachObserver_def runTeardown_def
        signalTeardown_def writableSignalTeardown_def setObservers_def
        setCurrentSubscribeId_def Let_def list_all_length nth_update_total
        sessionConsistent_def split: option.splits)
next
  case (WriteUpstream h data patches tags)
  assume "sessionsConsistent s"
  then show ?thesis using WriteUpstream
    by (auto simp: sessionsConsistent_def writeUpstream_def orElse_def
        split: option.splits sum.splits)
qed

lemma sessionsConsistent_run: "sessionsConsistent (run env ops)"
  by (rule run_induct) (simp_all add: sessionsConsistent_new sessionsConsistent_exec)


lemma updateOpenCommunicationsCount_insert:
  assumes "length (openChannels s) + length (ongoingRpcs s)
             + length (openSignalSubscriptions s)
             + length (openWritableSignalSubscriptions s) = Suc (openCommunicationsCount s)"
  shows "events (updateOpenCommunicationsCount s)
           = events s @ (if openCommunicationsCount s = 0
                         then [OnHavingOneOrMoreOpenCommunication] else [])"
proof -
  define n where "n = length (openChannels s) + length (ongoingRpcs s)
             + length (openSignalSubscriptions s)
             + length (openWritableSignalSubscriptions s)"
  from assms have c: "n = Suc (openCommunicationsCount s)" by (simp add: n_def)
  have "events (updateOpenCommunicationsCount s)
          = events s @ (if n = 0 \<and> openCommunicationsCount s > 0
                        then [OnHavingNoOpenCommunication]
                        else if n = 1 \<and> openCommunicationsCount s = 0
                        then [OnHavingOneOrMoreOpenCommunication] else [])"
    unfolding updateOpenCommunicationsCount_events Let_def n_def ..
  then show ?thesis by (simp add: c)
qed

lemma sessionConsistent_nth:
  "sessionsConsistent s \<Longrightarrow> h < length (signals s) \<Longrightarrow> sessionConsistent (signals s ! h)"
  by (simp add: sessionsConsistent_def list_all_length)

lemma writeUpstream_idle:
  assumes "sessionsConsistent s" "h < length (signals s)" "sigWritable (signals s ! h)"
    and "observers (signals s ! h) = 0"
  shows "writeUpstream h data patches tags s
           = Inl (Error ''writeUpstream called when not subscribed'')"
  using sessionConsistent_nth [OF assms(1,2)] assms(3,4)
  by (simp add: writeUpstream_def sessionConsistent_def)

lemma writeUpstream_active:
  assumes "sessionsConsistent s" "h < length (signals s)" "sigWritable (signals s ! h)"
    and "0 < observers (signals s ! h)"
  shows "\<exists>subscribeId. teardown (signals s ! h) = Some subscribeId
           \<and> writeUpstream h data patches tags s
               = Inr (transportSend (Out_writableSignalUpdate subscribeId patches tags) s)"
  using sessionConsistent_nth [OF assms(1,2)] assms(3,4)
  by (auto simp: writeUpstream_def sessionConsistent_def)

lemma attachObserver_first_writable:
  assumes "tablesConsistent s" "h < length (signals s)" "sigWritable (signals s ! h)"
    and "observers (signals s ! h) = 0"
  shows "events (attachObserver h s)
           = events s @ Send (Out_writableSignalSubscribe (sigEndpointName (signals s ! h))
                                (nextWritableSubscribeId s)
                                (sigCreationParameter (signals s ! h)))
               # (if openCommunicationsCount s = 0
                  then [OnHavingOneOrMoreOpenCommunication] else [])"
    and "writeUpstream h data patches tags (attachObserver h s)
           = Inr (transportSend
                    (Out_writableSignalUpdate (nextWritableSubscribeId s) patches tags)
                    (attachObserver h s))"
proof -
  let ?obj = "signals s ! h"
  let ?t = "(transportSend
               (Out_writableSignalSubscribe (sigEndpointName ?obj) (nextWritableSubscribeId s)
                  (sigCreationParameter ?obj))
               ((setCurrentSubscribeId h (Some (nextWritableSubscribeId s)) s)
                  \<lparr>nextWritableSubscribeId := Suc (nextWritableSubscribeId s)\<rparr>))
             \<lparr>openWritableSignalSubscriptions :=
                AList.update (nextWritableSubscribeId s)
                  \<lparr>signalEndpoint = sigEndpoint ?obj, signal = h, signalStack = sigStack ?obj\<rparr>
                  (openWritableSignalSubscriptions s)\<rparr>"
  have up: "writableSignalSubscribeUpstream h s
              = (nextWritableSubscribeId s, updateOpenCommunicationsCount ?t)"
    by (simp add: writableSignalSubscribeUpstream_def Let_def setCurrentSubscribeId_def)
  from assms(1) have k: "keysBelow (nextWritableSubscribeId s) (openWritableSignalSubscriptions s)"
    and c: "openCommunicationsCount s =
          length (openChannels s) + length (ongoingRpcs s)
          + length (openSignalSubscriptions s)
          + length (openWritableSignalSubscriptions s)"
    by (simp_all add: tablesConsistent_def)
  have "length (openChannels ?t) + length (ongoingRpcs ?t)
             + length (openSignalSubscriptions ?t)
             + length (openWritableSignalSubscriptions ?t) = Suc (openCommunicationsCount ?t)"
    using c by (simp add: length_update_fresh [OF k] setCurrentSubscribeId_def)
  from updateOpenCommunicationsCount_insert [OF this]
  have ev: "events (updateOpenCommunicationsCount ?t)
         = events s @ Send (Out_writableSignalSubscribe (sigEndpointName ?obj)
                                (nextWritableSubscribeId s) (sigCreationParameter ?obj))
               # (if openCommunicationsCount s = 0
                  then [OnHavingOneOrMoreOpenCommunication] else [])"
    by (simp add: setCurrentSubscribeId_def)
  have at: "attachObserver h s
      = setObservers h 1 (Some (nextWritableSubscribeId s)) (updateOpenCommunicationsCount ?t)"
    using assms(3,4) by (simp add: attachObserver_def subscribeUpstream_def up)
  show "events (attachObserver h s)
           = events s @ Send (Out_writableSignalSubscribe (sigEndpointName ?obj)
                                (nextWritableSubscribeId s) (sigCreationParameter ?obj))
               # (if openCommunicationsCount s = 0
                  then [OnHavingOneOrMoreOpenCommunication] else [])"
    unfolding at using ev by (simp add: setObservers_def)
  show "writeUpstream h data patches tags (attachObserver h s)
           = Inr (transportSend
                    (Out_writableSignalUpdate (nextWritableSubscribeId s) patches tags)
                    (attachObserver h s))"
    unfolding at using assms(2)
    by (simp add: writeUpstream_def setObservers_def setCurrentSubscribeId_def)
qed

lemma detachObserver_last_writable:
  assumes "sessionsConsistent s" "h < length (signals s)" "sigWritable (signals s ! h)"
    and "observers (signals s ! h) = 1"
  shows "\<exists>subscribeId. teardown (signals s ! h) = Some subscribeId
           \<and> events (detachObserver h s)
               = events s @ [Send (Out_writableSignalUnsubscribe subscribeId)]"
    and "writeUpstream h data patches tags (detachObserver h s)
           = Inl (Error ''writeUpstream called when not subscribed'')"
  using sessionConsistent_nth [OF assms(1,2)] assms(2,3,4)
  by (auto simp: detachObserver_def runTeardown_def writableSignalTeardown_def
      setObservers_def setCurrentSubscribeId_def writeUpstream_def sessionConsistent_def)


text \<open>
  Claim C9. Take a writable signal of a port after any run. While it has no observer
  (none has attached yet, or the last one has detached), the upstream writer raises the
  not-subscribed error and the port stays as it is: no frame is sent. When its first
  observer attaches, the port sends \<^verbatim>\<open>writableSignalSubscribe\<close> with a fresh subscribe
  id, and the upstream writer then sends \<^verbatim>\<open>writableSignalUpdate\<close> with that id, the
  patches and the tags. While it has observers, the upstream writer sends
  \<^verbatim>\<open>writableSignalUpdate\<close> with the subscribe id of the running session, the patches and
  the tags. When its last observer detaches, the port sends
  \<^verbatim>\<open>writableSignalUnsubscribe\<close> for that id and the upstream writer raises again.
\<close>

theorem writeUpstream_needs_session:
  assumes "h < length (signals (run env ops))"
    and "sigWritable (signals (run env ops) ! h)"
  shows "(observers (signals (run env ops) ! h) = 0 \<longrightarrow>
            writeUpstream h data patches tags (run env ops)
              = Inl (Error ''writeUpstream called when not subscribed'')
            \<and> exec env (run env ops) (WriteUpstream h data patches tags) = run env ops
            \<and> events (attachObserver h (run env ops))
                = events (run env ops)
                  @ Send (Out_writableSignalSubscribe
                            (sigEndpointName (signals (run env ops) ! h))
                            (nextWritableSubscribeId (run env ops))
                            (sigCreationParameter (signals (run env ops) ! h)))
                  # (if openCommunicationsCount (run env ops) = 0
                     then [OnHavingOneOrMoreOpenCommunication] else [])
            \<and> writeUpstream h data patches tags (attachObserver h (run env ops))
                = Inr (transportSend
                         (Out_writableSignalUpdate (nextWritableSubscribeId (run env ops))
                            patches tags)
                         (attachObserver h (run env ops))))
         \<and> (0 < observers (signals (run env ops) ! h) \<longrightarrow>
            (\<exists>subscribeId. teardown (signals (run env ops) ! h) = Some subscribeId
               \<and> writeUpstream h data patches tags (run env ops)
                   = Inr (transportSend (Out_writableSignalUpdate subscribeId patches tags)
                            (run env ops))))
         \<and> (observers (signals (run env ops) ! h) = 1 \<longrightarrow>
            (\<exists>subscribeId. teardown (signals (run env ops) ! h) = Some subscribeId
               \<and> events (detachObserver h (run env ops))
                   = events (run env ops) @ [Send (Out_writableSignalUnsubscribe subscribeId)])
            \<and> writeUpstream h data patches tags (detachObserver h (run env ops))
                = Inl (Error ''writeUpstream called when not subscribed''))"
proof (intro conjI impI)
  note sc = sessionsConsistent_run [of env ops]
  note tc = tablesConsistent_run [of env ops]
  {
    assume z: "observers (signals (run env ops) ! h) = 0"
    from writeUpstream_idle [OF sc assms z]
    show w: "writeUpstream h data patches tags (run env ops)
              = Inl (Error ''writeUpstream called when not subscribed'')" .
    show "exec env (run env ops) (WriteUpstream h data patches tags) = run env ops"
      using assms by (simp add: w orElse_def)
    from attachObserver_first_writable(1) [OF tc assms z]
    show "events (attachObserver h (run env ops))
                = events (run env ops)
                  @ Send (Out_writableSignalSubscribe
                            (sigEndpointName (signals (run env ops) ! h))
                            (nextWritableSubscribeId (run env ops))
                            (sigCreationParameter (signals (run env ops) ! h)))
                  # (if openCommunicationsCount (run env ops) = 0
                     then [OnHavingOneOrMoreOpenCommunication] else [])" .
    from attachObserver_first_writable(2) [OF tc assms z]
    show "writeUpstream h data patches tags (attachObserver h (run env ops))
                = Inr (transportSend
                         (Out_writableSignalUpdate (nextWritableSubscribeId (run env ops))
                            patches tags)
                         (attachObserver h (run env ops)))" .
  }
  {
    assume p: "0 < observers (signals (run env ops) ! h)"
    from writeUpstream_active [OF sc assms p]
    show "\<exists>subscribeId. teardown (signals (run env ops) ! h) = Some subscribeId
               \<and> writeUpstream h data patches tags (run env ops)
                   = Inr (transportSend (Out_writableSignalUpdate subscribeId patches tags)
                            (run env ops))" .
  }
  {
    assume o: "observers (signals (run env ops) ! h) = 1"
    from detachObserver_last_writable(1) [OF sc assms o]
    show "\<exists>subscribeId. teardown (signals (run env ops) ! h) = Some subscribeId
               \<and> events (detachObserver h (run env ops))
                   = events (run env ops) @ [Send (Out_writableSignalUnsubscribe subscribeId)]" .
    from detachObserver_last_writable(2) [OF sc assms o]
    show "writeUpstream h data patches tags (detachObserver h (run env ops))
                = Inl (Error ''writeUpstream called when not subscribed'')" .
  }
qed

theorem writeUpstream_needs_session_witness:
  "writeUpstream 0 (JObj [(''n'', JNum 1)]) [demoPatch] [TagString ''ui'']
      (run demoEnv [CreateWritableSignal ''setting'' (JStr ''y'') None])
     = Inl (Error ''writeUpstream called when not subscribed'')
   \<and> events (run demoEnv [CreateWritableSignal ''setting'' (JStr ''y'') None,
        WriteUpstream 0 (JObj [(''n'', JNum 1)]) [demoPatch] [TagString ''ui'']]) = []
   \<and> events (run demoEnv [CreateWritableSignal ''setting'' (JStr ''y'') None,
        AttachObserver 0,
        WriteUpstream 0 (JObj [(''n'', JNum 1)]) [demoPatch] [TagString ''ui'']])
     = [Send (Out_writableSignalSubscribe ''setting'' 0 (JStr ''y'')),
        OnHavingOneOrMoreOpenCommunication,
        Send (Out_writableSignalUpdate 0 [demoPatch] [TagString ''ui''])]
   \<and> writeUpstream 0 (JObj [(''n'', JNum 1)]) [demoPatch] [TagString ''ui'']
      (run demoEnv [CreateWritableSignal ''setting'' (JStr ''y'') None, AttachObserver 0,
         DetachObserver 0])
     = Inl (Error ''writeUpstream called when not subscribed'')"
proof -
  let ?cr = "CreateWritableSignal ''setting'' (JStr ''y'') None
                   :: (json, demoError) Operation"
  let ?wr = "WriteUpstream 0 (JObj [(''n'', JNum 1)]) [demoPatch] [TagString ''ui'']
                   :: (json, demoError) Operation"
  let ?s0 = "run demoEnv [?cr]"
  let ?s1 = "run demoEnv [?cr, AttachObserver 0]"
  have s0: "0 < length (signals ?s0)" "sigWritable (signals ?s0 ! 0)"
    "observers (signals ?s0 ! 0) = 0" "events ?s0 = []"
    by (simp_all add: port_defs demo_defs)
  have s1: "0 < length (signals ?s1)" "sigWritable (signals ?s1 ! 0)"
    "observers (signals ?s1 ! 0) = 1" "teardown (signals ?s1 ! 0) = Some 0"
    "events ?s1 = [Send (Out_writableSignalSubscribe ''setting'' 0 (JStr ''y'')),
        OnHavingOneOrMoreOpenCommunication]"
    by (simp_all add: port_defs demo_defs)
  have r0: "run demoEnv [?cr, ?wr] = exec demoEnv ?s0 ?wr"
    and r1: "run demoEnv [?cr, AttachObserver 0, ?wr] = exec demoEnv ?s1 ?wr"
    and r2: "run demoEnv [?cr, AttachObserver 0, DetachObserver 0] = detachObserver 0 ?s1"
    using s1(1) by (simp_all add: run_def)
  note t0 = writeUpstream_needs_session [OF s0(1,2), of "JObj [(''n'', JNum 1)]" "[demoPatch]"
      "[TagString ''ui'']"]
  note t1 = writeUpstream_needs_session [OF s1(1,2), of "JObj [(''n'', JNum 1)]" "[demoPatch]"
      "[TagString ''ui'']"]
  from t0 s0(3) have a: "writeUpstream 0 (JObj [(''n'', JNum 1)]) [demoPatch] [TagString ''ui'']
      ?s0 = Inl (Error ''writeUpstream called when not subscribed'')"
    and b: "exec demoEnv ?s0 ?wr = ?s0"
    by blast+
  from t1 s1(3,4) have c: "writeUpstream 0 (JObj [(''n'', JNum 1)]) [demoPatch]
      [TagString ''ui''] ?s1
        = Inr (transportSend (Out_writableSignalUpdate 0 [demoPatch] [TagString ''ui'']) ?s1)"
    by auto
  from t1 s1(3) have d: "writeUpstream 0 (JObj [(''n'', JNum 1)]) [demoPatch]
      [TagString ''ui''] (detachObserver 0 ?s1)
        = Inl (Error ''writeUpstream called when not subscribed'')"
    by blast
  have e: "events (exec demoEnv ?s1 ?wr)
     = [Send (Out_writableSignalSubscribe ''setting'' 0 (JStr ''y'')),
        OnHavingOneOrMoreOpenCommunication,
        Send (Out_writableSignalUpdate 0 [demoPatch] [TagString ''ui''])]"
    using s1(1,2,5) by (simp add: c orElse_def)
  show ?thesis
    unfolding r0 r1 r2 using a b d e s0(4) by simp
qed

subsection \<open>An rpc call and its result\<close>

lemma update_fresh_append: "k \<notin> fst ` set m \<Longrightarrow> AList.update k v m = m @ [(k, v)]"
  by (induction m) auto

lemma keysBelow_update_append: "keysBelow n m \<Longrightarrow> AList.update n v m = m @ [(n, v)]"
  by (rule update_fresh_append) (auto simp: keysBelow_def list_all_iff)

lemma inFlight_member:
  "map_of (ongoingRpcs s) k = Some r \<Longrightarrow> promise r \<in> set (inFlightPromises s)"
  by (force simp: inFlightPromises_def dest: map_of_SomeD)

lemma promisesValid_nth:
  "promisesValid s \<Longrightarrow> map_of (ongoingRpcs s) k = Some r \<Longrightarrow> promise r < length (promises s)"
  using inFlight_member [of s k r] by (auto simp: promisesValid_def list_all_iff)

lemma distinct_promises:
  assumes "distinct (map (promise \<circ> snd) m)"
    and "map_of m k = Some r" and "map_of m k' = Some r'" and "k \<noteq> k'"
  shows "promise r \<noteq> promise r'"
proof
  assume eq: "promise r = promise r'"
  from assms(2,3) have m: "(k, r) \<in> set m" "(k', r') \<in> set m"
    by (auto dest: map_of_SomeD)
  from assms(1) have "inj_on (promise \<circ> snd) (set m)" by (simp add: distinct_map)
  from inj_onD [OF this _ m] eq have "(k, r) = (k', r')" by simp
  with assms(4) show False by simp
qed

lemma inFlight_delete:
  "distinct (map (promise \<circ> snd) m) \<Longrightarrow> distinct (map (promise \<circ> snd) (AList.delete k m))"
  "list_all P (map (promise \<circ> snd) m) \<Longrightarrow> list_all P (map (promise \<circ> snd) (AList.delete k m))"
  by (simp_all add: AList.delete_eq distinct_map_filter list_all_iff)

lemma foldl_reject_promises_length [simp]:
  "length (promises (foldl (\<lambda>t r. reject r err t) s rs)) = length (promises s)"
  by (induction rs arbitrary: s) (simp_all add: reject_def)

lemma errored_promises_length [simp]:
  "length (promises (errored err s)) = length (promises s)"
  by (simp add: errored_def Let_def)

lemma promisesValid_new: "promisesValid newClientPort"
  by (simp add: promisesValid_def inFlightPromises_def newClientPort_def)

lemma promisesValid_receivedMessage:
  "promisesValid s \<Longrightarrow> receivedMessage env message s = Inr s' \<Longrightarrow> promisesValid s'"
  by (cases message)
    (auto simp: promisesValid_def inFlightPromises_def handler_defs_no_setValue Let_def
      inFlight_delete split: option.splits)

lemma promisesValid_callRpc:
  assumes "tablesConsistent s" "promisesValid s"
  shows "promisesValid (exec env s (CallRpc endpointName param stack))"
proof -
  from assms(1) have k: "keysBelow (nextChannelId s) (ongoingRpcs s)"
    by (simp add: tablesConsistent_def)
  from assms(2) have d: "distinct (inFlightPromises s)"
    and v: "\<forall>p \<in> set (inFlightPromises s). p < length (promises s)"
    by (simp_all add: promisesValid_def list_all_iff)
  from v have fresh: "length (promises s) \<notin> set (inFlightPromises s)" by auto
  from d v fresh show ?thesis
    by (auto simp: promisesValid_def inFlightPromises_def callRpc_def callRpcBody_def
        async_def rejectedPromise_def orElse_def makePromise_def Let_def list_all_iff
        keysBelow_update_append [OF k] less_SucI split: option.splits sum.splits)
qed

lemma promisesValid_exec:
  "tablesConsistent s \<Longrightarrow> promisesValid s \<Longrightarrow> promisesValid (exec env s operation)"
proof (cases operation)
  case (OnMessage message)
  assume "promisesValid s"
  then show ?thesis using OnMessage promisesValid_receivedMessage [of s env message]
    by (auto simp: orElse_def split: sum.splits)
next
  case (OnError err)
  assume "promisesValid s"
  then show ?thesis using OnError by (simp add: promisesValid_def inFlightPromises_def)
next
  case (CallRpc endpointName param stack)
  assume "tablesConsistent s" "promisesValid s"
  then show ?thesis unfolding CallRpc by (rule promisesValid_callRpc)
next
  case (CreateChannel endpointName param stack)
  assume "promisesValid s"
  then show ?thesis using CreateChannel
    by (auto simp: promisesValid_def inFlightPromises_def createChannel_def orElse_def Let_def
        split: option.splits sum.splits)
next
  case (ChannelSendPacket c packet)
  assume "promisesValid s"
  then show ?thesis using ChannelSendPacket
    by (auto simp: promisesValid_def inFlightPromises_def channelSendPacket_def orElse_def
        split: option.splits sum.splits)
next
  case (CreateSignal endpointName param stack)
  assume "promisesValid s"
  then show ?thesis using CreateSignal
    by (auto simp: promisesValid_def inFlightPromises_def createSignal_def orElse_def
        split: option.splits sum.splits)
next
  case (CreateWritableSignal endpointName param stack)
  assume "promisesValid s"
  then show ?thesis using CreateWritableSignal
    by (auto simp: promisesValid_def inFlightPromises_def createWritableSignal_def orElse_def
        split: option.splits sum.splits)
next
  case (AttachObserver h)
  assume "promisesValid s"
  then show ?thesis using AttachObserver
    by (auto simp: promisesValid_def inFlightPromises_def attachObserver_def
        subscribeUpstream_def signalSubscribeUpstream_def
        writableSignalSubscribeUpstream_def setObservers_def setCurrentSubscribeId_def Let_def)
next
  case (DetachObserver h)
  assume "promisesValid s"
  then show ?thesis using DetachObserver
    by (auto simp: promisesValid_def inFlightPromises_def detachObserver_def runTeardown_def
        signalTeardown_def writableSignalTeardown_def setObservers_def
        setCurrentSubscribeId_def Let_def split: option.splits)
next
  case (WriteUpstream h data patches tags)
  assume "promisesValid s"
  then show ?thesis using WriteUpstream
    by (auto simp: promisesValid_def inFlightPromises_def writeUpstream_def orElse_def
        split: option.splits sum.splits)
qed

lemma promisesValid_run: "promisesValid (run env ops)"
proof -
  have "tablesConsistent (run env ops) \<and> promisesValid (run env ops)"
    by (rule run_induct)
      (simp_all add: tablesConsistent_new promisesValid_new tablesConsistent_exec
        promisesValid_exec)
  then show ?thesis ..
qed


lemma tracks_receivedMessage:
  "tracks callId r s \<Longrightarrow> receivedMessage env message s = Inr s' \<Longrightarrow> tracks callId r s'"
  by (cases message)
    (auto simp: tracks_def handler_defs_no_setValue Let_def delete_conv'
      split: option.splits if_splits)

lemma tracks_exec: "tracks callId r s \<Longrightarrow> tracks callId r (exec env s operation)"
proof (cases operation)
  case (OnMessage message)
  assume "tracks callId r s"
  then show ?thesis using OnMessage tracks_receivedMessage [of callId r s env message]
    by (auto simp: orElse_def split: sum.splits)
next
  case (OnError err)
  assume "tracks callId r s"
  then show ?thesis using OnError by (simp add: tracks_def)
next
  case (CallRpc endpointName param stack)
  assume "tracks callId r s"
  then show ?thesis using CallRpc
    by (auto simp: tracks_def callRpc_def callRpcBody_def async_def rejectedPromise_def
        orElse_def makePromise_def Let_def update_conv' split: option.splits sum.splits)
next
  case (CreateChannel endpointName param stack)
  assume "tracks callId r s"
  then show ?thesis using CreateChannel
    by (auto simp: tracks_def createChannel_def orElse_def Let_def
        split: option.splits sum.splits)
next
  case (ChannelSendPacket c packet)
  assume "tracks callId r s"
  then show ?thesis using ChannelSendPacket
    by (auto simp: tracks_def channelSendPacket_def orElse_def
        split: option.splits sum.splits)
next
  case (CreateSignal endpointName param stack)
  assume "tracks callId r s"
  then show ?thesis using CreateSignal
    by (auto simp: tracks_def createSignal_def orElse_def split: option.splits sum.splits)
next
  case (CreateWritableSignal endpointName param stack)
  assume "tracks callId r s"
  then show ?thesis using CreateWritableSignal
    by (auto simp: tracks_def createWritableSignal_def orElse_def
        split: option.splits sum.splits)
next
  case (AttachObserver h)
  assume "tracks callId r s"
  then show ?thesis using AttachObserver
    by (auto simp: tracks_def attachObserver_def subscribeUpstream_def
        signalSubscribeUpstream_def writableSignalSubscribeUpstream_def setObservers_def
        setCurrentSubscribeId_def Let_def)
next
  case (DetachObserver h)
  assume "tracks callId r s"
  then show ?thesis using DetachObserver
    by (auto simp: tracks_def detachObserver_def runTeardown_def signalTeardown_def
        writableSignalTeardown_def setObservers_def setCurrentSubscribeId_def Let_def
        split: option.splits)
next
  case (WriteUpstream h data patches tags)
  assume "tracks callId r s"
  then show ?thesis using WriteUpstream
    by (auto simp: tracks_def writeUpstream_def orElse_def split: option.splits sum.splits)
qed

lemma settle_other:
  "q \<noteq> p \<Longrightarrow> promises (settle q x s) ! p = promises s ! p"
  by (simp add: settle_def)

lemma pendingInFlight_rpcResult:
  assumes "promisesValid s" "tracks callId r s" "pendingInFlight callId r s"
  shows "pendingInFlight callId r (receivedRpcResult k result s)"
proof (cases "map_of (ongoingRpcs s) callId")
  case None
  then show ?thesis
    by (auto simp: pendingInFlight_def receivedRpcResult_def resolve_def Let_def delete_conv'
        split: option.splits)
next
  case (Some r0)
  with assms(2) have r: "map_of (ongoingRpcs s) callId = Some r" by (simp add: tracks_def)
  with assms(3) have p: "promises s ! promise r = Pending" by (simp add: pendingInFlight_def)
  from assms(1) have d: "distinct (map (promise \<circ> snd) (ongoingRpcs s))"
    by (simp add: promisesValid_def inFlightPromises_def)
  show ?thesis
  proof (cases "k = callId")
    case True
    then show ?thesis
      by (auto simp: pendingInFlight_def receivedRpcResult_def resolve_def Let_def delete_conv'
          p split: option.splits)
  next
    case False
    have "promises (receivedRpcResult k result s) ! promise r = Pending"
    proof (cases "map_of (ongoingRpcs s) k")
      case None
      then show ?thesis by (simp add: receivedRpcResult_def p)
    next
      case (Some r')
      from distinct_promises [OF d Some r False] have "promise r' \<noteq> promise r" .
      then show ?thesis
        using Some by (simp add: receivedRpcResult_def resolve_def Let_def settle_other p
            split: option.splits)
    qed
    then show ?thesis by (simp add: pendingInFlight_def)
  qed
qed

lemma pendingInFlight_rpcError:
  assumes "promisesValid s" "tracks callId r s" "pendingInFlight callId r s"
  shows "pendingInFlight callId r (receivedRpcError env k serialized s)"
proof (cases "map_of (ongoingRpcs s) callId")
  case None
  then show ?thesis
    by (auto simp: pendingInFlight_def receivedRpcError_def reject_def Let_def delete_conv'
        split: option.splits)
next
  case (Some r0)
  with assms(2) have r: "map_of (ongoingRpcs s) callId = Some r" by (simp add: tracks_def)
  with assms(3) have p: "promises s ! promise r = Pending" by (simp add: pendingInFlight_def)
  from assms(1) have d: "distinct (map (promise \<circ> snd) (ongoingRpcs s))"
    by (simp add: promisesValid_def inFlightPromises_def)
  show ?thesis
  proof (cases "k = callId")
    case True
    then show ?thesis
      by (auto simp: pendingInFlight_def receivedRpcError_def reject_def Let_def delete_conv'
          p split: option.splits)
  next
    case False
    have "promises (receivedRpcError env k serialized s) ! promise r = Pending"
    proof (cases "map_of (ongoingRpcs s) k")
      case None
      then show ?thesis by (simp add: receivedRpcError_def p)
    next
      case (Some r')
      from distinct_promises [OF d Some r False] have "promise r' \<noteq> promise r" .
      then show ?thesis
        using Some by (simp add: receivedRpcError_def reject_def Let_def settle_other p)
    qed
    then show ?thesis by (simp add: pendingInFlight_def)
  qed
qed

lemma pendingInFlight_receivedMessage:
  assumes "promisesValid s" "tracks callId r s" "pendingInFlight callId r s"
    and "receivedMessage env message s = Inr s'"
  shows "pendingInFlight callId r s'"
proof (cases message)
  case (In_rpcResult k result)
  with assms show ?thesis by (auto simp: pendingInFlight_rpcResult)
next
  case (In_rpcError k serialized)
  with assms show ?thesis by (auto simp: pendingInFlight_rpcError)
qed (use assms in \<open>auto simp: pendingInFlight_def receivedChannelSend_def
      receivedChannelAck_def receivedChannelClose_def receivedChannelError_def
      receivedSignalUpdate_def receivedSignalError_def receivedWritableSignalUpdate_def
      receivedWritableSignalError_def receivedCommunicationWarning_def
      receivedKeepAliveAck_def Let_def split: option.splits\<close>)

lemma pendingInFlight_callRpc:
  assumes "promisesValid s" "tracks callId r s" "pendingInFlight callId r s"
  shows "pendingInFlight callId r (exec env s (CallRpc endpointName param stack))"
proof (cases "map_of (ongoingRpcs s) callId")
  case None
  with assms(2) show ?thesis
    by (auto simp: pendingInFlight_def tracks_def callRpc_def callRpcBody_def async_def
        rejectedPromise_def orElse_def makePromise_def Let_def update_conv'
        split: option.splits sum.splits)
next
  case (Some r0)
  with assms(2) have r: "map_of (ongoingRpcs s) callId = Some r" by (simp add: tracks_def)
  with assms(3) have p: "promises s ! promise r = Pending" by (simp add: pendingInFlight_def)
  from promisesValid_nth [OF assms(1) r] have v: "promise r < length (promises s)" .
  have "promises (exec env s (CallRpc endpointName param stack)) ! promise r = Pending"
    using p v
    by (auto simp: callRpc_def callRpcBody_def async_def rejectedPromise_def orElse_def
        makePromise_def Let_def nth_append split: option.splits sum.splits)
  then show ?thesis by (simp add: pendingInFlight_def)
qed

lemma pendingInFlight_exec:
  assumes "promisesValid s" "tracks callId r s" "pendingInFlight callId r s"
    and "\<not> isTransportError operation"
  shows "pendingInFlight callId r (exec env s operation)"
proof (cases operation)
  case (OnMessage message)
  then show ?thesis
    using assms(1-3) pendingInFlight_receivedMessage [OF assms(1-3), of env message]
    by (auto simp: orElse_def split: sum.splits)
next
  case (OnError err)
  with assms(4) show ?thesis by simp
next
  case (CallRpc endpointName param stack)
  show ?thesis unfolding CallRpc by (rule pendingInFlight_callRpc [OF assms(1-3)])
next
  case (CreateChannel endpointName param stack)
  then show ?thesis using assms(3)
    by (auto simp: pendingInFlight_def createChannel_def orElse_def Let_def
        split: option.splits sum.splits)
next
  case (ChannelSendPacket c packet)
  then show ?thesis using assms(3)
    by (auto simp: pendingInFlight_def channelSendPacket_def orElse_def
        split: option.splits sum.splits)
next
  case (CreateSignal endpointName param stack)
  then show ?thesis using assms(3)
    by (auto simp: pendingInFlight_def createSignal_def orElse_def
        split: option.splits sum.splits)
next
  case (CreateWritableSignal endpointName param stack)
  then show ?thesis using assms(3)
    by (auto simp: pendingInFlight_def createWritableSignal_def orElse_def
        split: option.splits sum.splits)
next
  case (AttachObserver h)
  then show ?thesis using assms(3)
    by (auto simp: pendingInFlight_def attachObserver_def subscribeUpstream_def
        signalSubscribeUpstream_def writableSignalSubscribeUpstream_def setObservers_def
        setCurrentSubscribeId_def Let_def)
next
  case (DetachObserver h)
  then show ?thesis using assms(3)
    by (auto simp: pendingInFlight_def detachObserver_def runTeardown_def signalTeardown_def
        writableSignalTeardown_def setObservers_def setCurrentSubscribeId_def Let_def
        split: option.splits)
next
  case (WriteUpstream h data patches tags)
  then show ?thesis using assms(3)
    by (auto simp: pendingInFlight_def writeUpstream_def orElse_def
        split: option.splits sum.splits)
qed

lemma run_snoc: "run env (ops @ [operation]) = exec env (run env ops) operation"
  by (simp add: run_def)

lemma in_flight_along_run:
  assumes "tracks callId r (run env base)" "pendingInFlight callId r (run env base)"
  shows "tracks callId r (run env (base @ later))
         \<and> (noTransportError later \<longrightarrow> pendingInFlight callId r (run env (base @ later)))"
proof (induction later rule: rev_induct)
  case Nil
  from assms show ?case by simp
next
  case (snoc operation later)
  have eq: "run env (base @ later @ [operation]) = exec env (run env (base @ later)) operation"
    using run_snoc [of env "base @ later" operation] by simp
  from snoc have t: "tracks callId r (run env (base @ later))" by simp
  show ?case
  proof (intro conjI impI)
    show "tracks callId r (run env (base @ later @ [operation]))"
      unfolding eq by (rule tracks_exec [OF t])
    assume n: "noTransportError (later @ [operation])"
    then have "noTransportError later" and o: "\<not> isTransportError operation"
      by (simp_all add: noTransportError_def)
    with snoc have p: "pendingInFlight callId r (run env (base @ later))" by simp
    show "pendingInFlight callId r (run env (base @ later @ [operation]))"
      unfolding eq by (rule pendingInFlight_exec [OF promisesValid_run t p o])
  qed
qed


lemma callRpc_accepted:
  fixes stack :: "string option"
  assumes "tablesConsistent s"
    and "getRpcEndpoint (backendInterface env) endpointName = Some endpoint"
    and "safeParse (parameter endpoint) param = Some validated"
  defines "s1 \<equiv> exec env s (CallRpc endpointName param stack)"
  shows "callRpc env endpointName param stack s = Inr (length (promises s), s1)"
    and "events s1 = events s @ Send (Out_rpcCall endpointName (nextChannelId s) validated)
             # (if openCommunicationsCount s = 0
                then [OnHavingOneOrMoreOpenCommunication] else [])"
    and "promises s1 = promises s @ [Pending]"
    and "map_of (ongoingRpcs s1) (nextChannelId s)
           = Some \<lparr>rpcEndpoint = endpoint, rpcStack = stackOrCurrent env stack,
                   promise = length (promises s)\<rparr>"
    and "openCommunicationsCount s1 = openCommunicationsCount s + 1"
    and "nextChannelId s1 = Suc (nextChannelId s)"
  using assms
  by (auto simp: callRpc_def callRpcBody_def async_def parse_def safeParse_def orElse_def
      makePromise_def Let_def updateOpenCommunicationsCount_events update_conv'
      tablesConsistent_def length_update_fresh)

lemma rpcResult_removes:
  fixes env :: "('v, 'e) Env" and s2 :: "('v, 'e) ClientPort"
  assumes "tablesConsistent s2"
    and "map_of (ongoingRpcs s2) callId = Some ongoingRpc"
    and "safeParse (returns (rpcEndpoint ongoingRpc)) result = Some data"
  defines "s3 \<equiv> exec env s2 (OnMessage (In_rpcResult callId result))"
  shows "receivedMessage env (In_rpcResult callId result) s2 = Inr s3"
    and "map_of (ongoingRpcs s3) callId = None"
    and "openCommunicationsCount s3 + 1 = openCommunicationsCount s2"
    and "events s3 = events s2 @ (if openCommunicationsCount s2 = 1
                                   then [OnHavingNoOpenCommunication] else [])"
    and "promise ongoingRpc < length (promises s2)
         \<Longrightarrow> promises s2 ! promise ongoingRpc = Pending
         \<Longrightarrow> promises s3 ! promise ongoingRpc = Fulfilled data"
proof -
  have s3: "s3 = receivedRpcResult callId result s2" by (simp add: s3_def orElse_def)
  from assms(1) have "keysBelow (nextChannelId s2) (ongoingRpcs s2)"
    by (simp add: tablesConsistent_def)
  from length_delete_keysBelow [OF this assms(2)]
  have len: "Suc (length (AList.delete callId (ongoingRpcs s2))) = length (ongoingRpcs s2)" .
  show "receivedMessage env (In_rpcResult callId result) s2 = Inr s3"
    by (simp add: s3)
  show "map_of (ongoingRpcs s3) callId = None"
    using assms(2,3) by (simp add: s3 receivedRpcResult_def resolve_def Let_def delete_conv')
  show "openCommunicationsCount s3 + 1 = openCommunicationsCount s2"
    using assms(1-3) len
    by (simp add: s3 receivedRpcResult_def resolve_def Let_def tablesConsistent_def)
  show "events s3 = events s2 @ (if openCommunicationsCount s2 = 1
                                   then [OnHavingNoOpenCommunication] else [])"
  proof -
    let ?t = "(resolve ongoingRpc data s2)\<lparr>ongoingRpcs :=
                 AList.delete callId (ongoingRpcs (resolve ongoingRpc data s2))\<rparr>"
    have "Suc (length (openChannels ?t) + length (ongoingRpcs ?t)
             + length (openSignalSubscriptions ?t)
             + length (openWritableSignalSubscriptions ?t)) = openCommunicationsCount ?t"
      using assms(1) len by (simp add: resolve_def tablesConsistent_def)
    from updateOpenCommunicationsCount_release [OF this] assms(2,3)
    show ?thesis by (simp add: s3 receivedRpcResult_def Let_def resolve_def)
  qed
  show "promise ongoingRpc < length (promises s2)
         \<Longrightarrow> promises s2 ! promise ongoingRpc = Pending
         \<Longrightarrow> promises s3 ! promise ongoingRpc = Fulfilled data"
    using assms(2,3) by (simp add: s3 receivedRpcResult_def resolve_def settle_def Let_def)
qed

text \<open>
  Claim C2 says that an inbound \<^verbatim>\<open>rpcResult\<close> for the call id whose result passes the
  returns schema resolves the future with the validated result. After
  \<^verbatim>\<open>callRpc("add", {a: 2, b: 3})\<close> the transport calls \<^verbatim>\<open>onError\<close> with \<open>E\<close>,
  which rejects the future; the record is still in the table when \<^verbatim>\<open>rpcResult\<close> with
  call id 0 and result 5 comes in. The record is removed, but the future stays rejected
  with \<open>E\<close>: it is not resolved with 5.
\<close>

theorem rpcResult_resolves_future_counterexample:
  "map_of (ongoingRpcs (run demoEnv
       [CallRpc ''add'' (JObj [(''a'', JNum 2), (''b'', JNum 3)]) None,
        OnError (TransportFailure ''E'')])) 0
     = Some \<lparr>rpcEndpoint = \<lparr>rpcName = ''add'', parameter = addParameterSchema,
                  returns = numberSchema\<rparr>,
              rpcStack = ''at user code'', promise = 0\<rparr>
   \<and> safeParse numberSchema (JNum 5) = Some (JNum 5)
   \<and> promises (run demoEnv
       [CallRpc ''add'' (JObj [(''a'', JNum 2), (''b'', JNum 3)]) None,
        OnError (TransportFailure ''E''),
        OnMessage (In_rpcResult 0 (JNum 5))]) ! 0 = Rejected (TransportFailure ''E'')
   \<and> promises (run demoEnv
       [CallRpc ''add'' (JObj [(''a'', JNum 2), (''b'', JNum 3)]) None,
        OnError (TransportFailure ''E''),
        OnMessage (In_rpcResult 0 (JNum 5))]) ! 0 \<noteq> Fulfilled (JNum 5)
   \<and> map_of (ongoingRpcs (run demoEnv
       [CallRpc ''add'' (JObj [(''a'', JNum 2), (''b'', JNum 3)]) None,
        OnError (TransportFailure ''E''),
        OnMessage (In_rpcResult 0 (JNum 5))])) 0 = None"
  by (simp add: port_defs demo_defs errored_def handler_defs settle_def)

text \<open>
  Claim C2, as the code has it. After any run of a port, \<^verbatim>\<open>callRpc\<close> with a registered
  endpoint and a parameter that passes the parameter schema returns a promise that is
  still pending, having sent exactly one frame: \<^verbatim>\<open>rpcCall\<close> with the endpoint name,
  the call id taken from \<^verbatim>\<open>nextChannelId\<close> and the validated parameter (followed by the
  transport edge when the count was 0). The record of the call is in the table and the
  count has grown by one. Whatever happens later, as long as a record is in the table
  under the call id it is the record of this call, and an inbound \<^verbatim>\<open>rpcResult\<close> for
  the call id whose result passes the returns schema removes it and lowers the count by
  one (reporting the edge when the count was 1). The promise is fulfilled with the
  validated result if it is still pending, and it is still pending whenever the
  transport has not called \<^verbatim>\<open>onError\<close> since the call.
\<close>

theorem rpc_call_then_result:
  fixes ops :: "('v, 'e) Operation list" and stack :: "string option"
  assumes "getRpcEndpoint (backendInterface env) endpointName = Some endpoint"
    and "safeParse (parameter endpoint) param = Some validated"
  defines "call \<equiv> CallRpc endpointName param stack"
    and "callId \<equiv> nextChannelId (run env ops)"
  shows "\<exists>p.
      callRpc env endpointName param stack (run env ops) = Inr (p, run env (ops @ [call]))
      \<and> events (run env (ops @ [call]))
          = events (run env ops) @ Send (Out_rpcCall endpointName callId validated)
              # (if openCommunicationsCount (run env ops) = 0
                 then [OnHavingOneOrMoreOpenCommunication] else [])
      \<and> p < length (promises (run env (ops @ [call])))
      \<and> promises (run env (ops @ [call])) ! p = Pending
      \<and> map_of (ongoingRpcs (run env (ops @ [call]))) callId
          = Some \<lparr>rpcEndpoint = endpoint, rpcStack = stackOrCurrent env stack, promise = p\<rparr>
      \<and> openCommunicationsCount (run env (ops @ [call]))
          = openCommunicationsCount (run env ops) + 1
      \<and> (\<forall>later result data.
            map_of (ongoingRpcs (run env (ops @ call # later))) callId \<noteq> None
            \<and> safeParse (returns endpoint) result = Some data
            \<longrightarrow>
              map_of (ongoingRpcs (run env (ops @ call # later))) callId
                = Some \<lparr>rpcEndpoint = endpoint, rpcStack = stackOrCurrent env stack,
                        promise = p\<rparr>
              \<and> receivedMessage env (In_rpcResult callId result)
                    (run env (ops @ call # later))
                  = Inr (run env (ops @ call # later @ [OnMessage (In_rpcResult callId result)]))
              \<and> map_of (ongoingRpcs
                    (run env (ops @ call # later @ [OnMessage (In_rpcResult callId result)])))
                    callId = None
              \<and> openCommunicationsCount
                    (run env (ops @ call # later @ [OnMessage (In_rpcResult callId result)])) + 1
                  = openCommunicationsCount (run env (ops @ call # later))
              \<and> events (run env (ops @ call # later @ [OnMessage (In_rpcResult callId result)]))
                  = events (run env (ops @ call # later))
                    @ (if openCommunicationsCount (run env (ops @ call # later)) = 1
                       then [OnHavingNoOpenCommunication] else [])
              \<and> (promises (run env (ops @ call # later)) ! p = Pending \<longrightarrow>
                    promises
                      (run env (ops @ call # later @ [OnMessage (In_rpcResult callId result)])) ! p
                    = Fulfilled data)
              \<and> (noTransportError later \<longrightarrow>
                    promises (run env (ops @ call # later)) ! p = Pending
                    \<and> promises
                      (run env (ops @ call # later @ [OnMessage (In_rpcResult callId result)])) ! p
                    = Fulfilled data))"
proof -
  let ?s = "run env ops"
  let ?s1 = "run env (ops @ [call])"
  let ?p = "length (promises ?s)"
  let ?r = "\<lparr>rpcEndpoint = endpoint, rpcStack = stackOrCurrent env stack, promise = ?p\<rparr>"
  have s1: "?s1 = exec env ?s (CallRpc endpointName param stack)"
    by (simp add: run_snoc call_def)
  note c = callRpc_accepted [OF tablesConsistent_run [of env ops] assms(1,2),
      where stack = stack, folded s1 callId_def]
  have pend1: "promises ?s1 ! ?p = Pending" and len1: "?p < length (promises ?s1)"
    by (simp_all add: c(3))
  have t1: "tracks callId ?r ?s1"
    using c(4,6) unfolding tracks_def callId_def by simp
  have p1: "pendingInFlight callId ?r ?s1"
    by (simp add: pendingInFlight_def pend1)
  have reply: "map_of (ongoingRpcs (run env (ops @ call # later))) callId = Some ?r
      \<and> receivedMessage env (In_rpcResult callId result) (run env (ops @ call # later))
          = Inr (run env (ops @ call # later @ [OnMessage (In_rpcResult callId result)]))
      \<and> map_of (ongoingRpcs
            (run env (ops @ call # later @ [OnMessage (In_rpcResult callId result)])))
            callId = None
      \<and> openCommunicationsCount
            (run env (ops @ call # later @ [OnMessage (In_rpcResult callId result)])) + 1
          = openCommunicationsCount (run env (ops @ call # later))
      \<and> events (run env (ops @ call # later @ [OnMessage (In_rpcResult callId result)]))
          = events (run env (ops @ call # later))
            @ (if openCommunicationsCount (run env (ops @ call # later)) = 1
               then [OnHavingNoOpenCommunication] else [])
      \<and> (promises (run env (ops @ call # later)) ! ?p = Pending \<longrightarrow>
            promises
              (run env (ops @ call # later @ [OnMessage (In_rpcResult callId result)])) ! ?p
            = Fulfilled data)
      \<and> (noTransportError later \<longrightarrow>
            promises (run env (ops @ call # later)) ! ?p = Pending
            \<and> promises
              (run env (ops @ call # later @ [OnMessage (In_rpcResult callId result)])) ! ?p
            = Fulfilled data)"
    if present: "map_of (ongoingRpcs (run env (ops @ call # later))) callId \<noteq> None"
      and valid: "safeParse (returns endpoint) result = Some data"
    for later :: "('v, 'e) Operation list" and result data
  proof -
    let ?s2 = "run env (ops @ call # later)"
    let ?s3 = "run env (ops @ call # later @ [OnMessage (In_rpcResult callId result)])"
    have e2: "ops @ call # later = (ops @ [call]) @ later" by simp
    have s3: "?s3 = exec env ?s2 (OnMessage (In_rpcResult callId result))"
      using run_snoc [of env "ops @ call # later" "OnMessage (In_rpcResult callId result)"]
      by simp
    from in_flight_along_run [OF t1 p1, of later, folded e2]
    have t2: "tracks callId ?r ?s2"
      and p2: "noTransportError later \<Longrightarrow> pendingInFlight callId ?r ?s2"
      by simp_all
    from t2 present have rec: "map_of (ongoingRpcs ?s2) callId = Some ?r"
      by (simp add: tracks_def)
    from valid have valid': "safeParse (returns (rpcEndpoint ?r)) result = Some data" by simp
    note r = rpcResult_removes [OF tablesConsistent_run rec valid', where env = env, folded s3]
    from promisesValid_nth [OF promisesValid_run rec]
    have len2: "?p < length (promises ?s2)" by simp
    from r(5) len2 have ful: "promises ?s2 ! ?p = Pending \<Longrightarrow> promises ?s3 ! ?p = Fulfilled data"
      by simp
    have pen: "noTransportError later \<Longrightarrow> promises ?s2 ! ?p = Pending"
      using p2 rec by (simp add: pendingInFlight_def)
    from rec r(1-4) ful pen show ?thesis by blast
  qed
  from c(1,2) len1 pend1 c(4,5) reply show ?thesis by blast
qed


theorem rpc_call_then_result_witness:
  "callRpc demoEnv ''add'' (JObj [(''a'', JNum 2), (''b'', JNum 3)]) None (run demoEnv [])
     = Inr (0, run demoEnv [CallRpc ''add'' (JObj [(''a'', JNum 2), (''b'', JNum 3)]) None])
   \<and> events (run demoEnv [CallRpc ''add'' (JObj [(''a'', JNum 2), (''b'', JNum 3)]) None])
     = [Send (Out_rpcCall ''add'' 0 (JObj [(''a'', JNum 2), (''b'', JNum 3)])),
        OnHavingOneOrMoreOpenCommunication]
   \<and> promises (run demoEnv [CallRpc ''add'' (JObj [(''a'', JNum 2), (''b'', JNum 3)]) None]) ! 0
     = Pending
   \<and> promises (run demoEnv [CallRpc ''add'' (JObj [(''a'', JNum 2), (''b'', JNum 3)]) None,
        OnMessage (In_rpcResult 0 (JNum 5))]) ! 0 = Fulfilled (JNum 5)
   \<and> map_of (ongoingRpcs (run demoEnv
        [CallRpc ''add'' (JObj [(''a'', JNum 2), (''b'', JNum 3)]) None,
         OnMessage (In_rpcResult 0 (JNum 5))])) 0 = None
   \<and> openCommunicationsCount (run demoEnv
        [CallRpc ''add'' (JObj [(''a'', JNum 2), (''b'', JNum 3)]) None,
         OnMessage (In_rpcResult 0 (JNum 5))]) = 0
   \<and> events (run demoEnv [CallRpc ''add'' (JObj [(''a'', JNum 2), (''b'', JNum 3)]) None,
        OnMessage (In_rpcResult 0 (JNum 5))])
     = [Send (Out_rpcCall ''add'' 0 (JObj [(''a'', JNum 2), (''b'', JNum 3)])),
        OnHavingOneOrMoreOpenCommunication, OnHavingNoOpenCommunication]"
proof -
  let ?c = "CallRpc ''add'' (JObj [(''a'', JNum 2), (''b'', JNum 3)]) None
              :: (json, demoError) Operation"
  let ?m = "OnMessage (In_rpcResult 0 (JNum 5)) :: (json, demoError) Operation"
  let ?ep = "\<lparr>rpcName = ''add'', parameter = addParameterSchema, returns = numberSchema\<rparr>"
  have new: "nextChannelId (run demoEnv [] :: (json, demoError) ClientPort) = 0"
    "openCommunicationsCount (run demoEnv [] :: (json, demoError) ClientPort) = 0"
    "events (run demoEnv [] :: (json, demoError) ClientPort) = []"
    "promises (run demoEnv [] :: (json, demoError) ClientPort) = []"
    by (simp_all add: run_def newClientPort_def)
  have ep: "getRpcEndpoint (backendInterface demoEnv) ''add'' = Some ?ep"
    by (simp add: demo_defs)
  have par: "safeParse (parameter ?ep) (JObj [(''a'', JNum 2), (''b'', JNum 3)])
               = Some (JObj [(''a'', JNum 2), (''b'', JNum 3)])"
    by (simp add: safeParse_def)
  have ret: "safeParse (returns ?ep) (JNum 5) = Some (JNum 5)"
    by (simp add: safeParse_def)
  have quiet: "noTransportError ([] :: (json, demoError) Operation list)"
    by (simp add: noTransportError_def)
  from rpc_call_then_result [OF ep par, where ops = "[]" and stack = None]
  obtain p where
    c: "callRpc demoEnv ''add'' (JObj [(''a'', JNum 2), (''b'', JNum 3)]) None (run demoEnv [])
          = Inr (p, run demoEnv [?c])"
    and ev: "events (run demoEnv [?c])
          = [Send (Out_rpcCall ''add'' 0 (JObj [(''a'', JNum 2), (''b'', JNum 3)])),
             OnHavingOneOrMoreOpenCommunication]"
    and pend: "promises (run demoEnv [?c]) ! p = Pending"
    and inst: "map_of (ongoingRpcs (run demoEnv [?c])) 0
          = Some \<lparr>rpcEndpoint = ?ep, rpcStack = stackOrCurrent demoEnv None, promise = p\<rparr>"
    and cnt: "openCommunicationsCount (run demoEnv [?c]) = 1"
    and reply: "\<And>later result data.
            map_of (ongoingRpcs (run demoEnv (?c # later))) 0 \<noteq> None
            \<Longrightarrow> safeParse (returns ?ep) result = Some data
            \<Longrightarrow> map_of (ongoingRpcs
                    (run demoEnv (?c # later @ [OnMessage (In_rpcResult 0 result)]))) 0 = None
              \<and> openCommunicationsCount
                    (run demoEnv (?c # later @ [OnMessage (In_rpcResult 0 result)])) + 1
                  = openCommunicationsCount (run demoEnv (?c # later))
              \<and> events (run demoEnv (?c # later @ [OnMessage (In_rpcResult 0 result)]))
                  = events (run demoEnv (?c # later))
                    @ (if openCommunicationsCount (run demoEnv (?c # later)) = 1
                       then [OnHavingNoOpenCommunication] else [])
              \<and> (noTransportError later \<longrightarrow>
                    promises
                      (run demoEnv (?c # later @ [OnMessage (In_rpcResult 0 result)])) ! p
                    = Fulfilled data)"
    unfolding new by auto
  have "callRpc demoEnv ''add'' (JObj [(''a'', JNum 2), (''b'', JNum 3)]) None (run demoEnv [])
          = Inr (0, run demoEnv [?c])"
    by (simp add: port_defs demo_defs)
  with c have p: "p = 0" by simp
  from inst have present: "map_of (ongoingRpcs (run demoEnv (?c # []))) 0 \<noteq> None" by simp
  from reply [OF present ret] quiet
  have r: "map_of (ongoingRpcs (run demoEnv [?c, ?m])) 0 = None"
    "openCommunicationsCount (run demoEnv [?c, ?m]) + 1
       = openCommunicationsCount (run demoEnv [?c])"
    "events (run demoEnv [?c, ?m])
       = events (run demoEnv [?c])
         @ (if openCommunicationsCount (run demoEnv [?c]) = 1
            then [OnHavingNoOpenCommunication] else [])"
    "promises (run demoEnv [?c, ?m]) ! p = Fulfilled (JNum 5)"
    by simp_all
  from c ev pend r cnt show ?thesis unfolding p by simp
qed

end
